theory Spec2Isabelle
  imports Main "HOL-Library.Sublist"
begin

section \<open>C strings and the library functions the uploader calls\<close>

text \<open>
  A C string is modelled by the list of its characters before the terminating NUL, so
  the end of the list plays the role of the terminator and a \<^typ>\<open>string\<close> that stands
  for a C string holds no \<^term>\<open>CHR 0x00\<close>. A \<^verbatim>\<open>char *\<close> that may be \<^verbatim>\<open>NULL\<close> is a
  \<^typ>\<open>string option\<close>. A pointer into a string (the result of \<^verbatim>\<open>strstr\<close>, \<^verbatim>\<open>strchr\<close>,
  \<^verbatim>\<open>strrchr\<close>) is the suffix that starts at the position pointed to.
  Allocation (\<^verbatim>\<open>malloc\<close>, \<^verbatim>\<open>realloc\<close>, \<^verbatim>\<open>strdup\<close>) is taken to succeed. The source
  checks it in \<^verbatim>\<open>write_callback\<close> only, where a failure makes the transfer fail.
\<close>

definition snprintf :: "nat \<Rightarrow> string \<Rightarrow> string" where
  \<comment> \<open>\<^verbatim>\<open>snprintf(buf, n, ...)\<close> into a fresh buffer of \<open>n > 0\<close> bytes: the formatted
      text cut to \<open>n - 1\<close> characters. The argument is the text already formatted.\<close>
  "snprintf n s = take (n - 1) s"

fun strstr :: "string \<Rightarrow> string \<Rightarrow> string option" where
  "strstr [] needle = (if needle = [] then Some [] else None)"
| "strstr (c # cs) needle =
     (if prefix needle (c # cs) then Some (c # cs) else strstr cs needle)"

fun strchr :: "string \<Rightarrow> char \<Rightarrow> string option" where
  "strchr [] ch = None"
| "strchr (c # cs) ch = (if c = ch then Some (c # cs) else strchr cs ch)"

fun strrchr :: "string \<Rightarrow> char \<Rightarrow> string option" where
  "strrchr [] ch = None"
| "strrchr (c # cs) ch =
     (case strrchr cs ch of
        Some r \<Rightarrow> Some r
      | None \<Rightarrow> if c = ch then Some (c # cs) else None)"

section \<open>Response decoder: \<^verbatim>\<open>extract_json_value\<close>\<close>

definition is_space :: "char \<Rightarrow> bool" where
  \<comment> \<open>\<^verbatim>\<open>*start == ' ' || *start == '\n' || *start == '\t'\<close>\<close>
  "is_space c \<longleftrightarrow> c = CHR '' '' \<or> c = CHR 0x0A \<or> c = CHR 0x09"

definition is_delim :: "char \<Rightarrow> bool" where
  \<comment> \<open>the bare-token loop stops at \<^verbatim>\<open>','\<close>, \<^verbatim>\<open>'}'\<close> or \<^verbatim>\<open>']'\<close> (or at the terminator)\<close>
  "is_delim c \<longleftrightarrow> c = CHR '','' \<or> c = CHR ''}'' \<or> c = CHR '']''"

definition dquote :: char where
  "dquote = CHR 0x22"

definition key_colon :: "string \<Rightarrow> string" where
  \<comment> \<open>the format \<^verbatim>\<open>"\"%s\":"\<close> applied to the key\<close>
  "key_colon key = [dquote] @ key @ [dquote, CHR '':'']"

definition search_pattern :: "string \<Rightarrow> string" where
  \<comment> \<open>\<^verbatim>\<open>char search[256]; snprintf(search, sizeof(search), "\"%s\":", key);\<close>\<close>
  "search_pattern key = snprintf 256 (key_colon key)"

definition extract_json_value :: "string \<Rightarrow> string \<Rightarrow> string option" where
  "extract_json_value json key =
     (let search = search_pattern key in
      case strstr json search of
        None \<Rightarrow> None
      | Some start0 \<Rightarrow>
          (let start = dropWhile is_space (drop (length search) start0) in
           case start of
             c # start1 \<Rightarrow>
               if c = dquote then
                 (case strchr start1 dquote of
                    None \<Rightarrow> None
                  | Some end \<Rightarrow> Some (take (length start1 - length end) start1))
               else Some (takeWhile (\<lambda>c. \<not> is_delim c) start)
           | [] \<Rightarrow> Some []))"

section \<open>Data model\<close>

definition MAX_URL_LEN :: nat where "MAX_URL_LEN = 2048"
definition MAX_PATH_LEN :: nat where "MAX_PATH_LEN = 1024"
definition MAX_FILES :: nat where "MAX_FILES = 1000"

record SPConfig =
  server_url :: string
  node_id :: string
  password :: "string option"
  backup_directory :: string

text \<open>
  \<^verbatim>\<open>FileList\<close>: \<^verbatim>\<open>files[0 .. count - 1]\<close> is a list of paths and \<^verbatim>\<open>count\<close> its length.
\<close>

type_synonym FileList = "string list"

subsection \<open>The world outside the process\<close>

text \<open>
  Each of the five request functions opens one libcurl handle and performs at most one
  transfer on it. The environment decides, for the \<open>n\<close>-th handle the process asks for
  and the function asking, whether \<^verbatim>\<open>curl_easy_init\<close> gives a handle and what
  \<^verbatim>\<open>curl_easy_perform\<close> does with the request: it fails, or it completes with a response
  code, having handed the body to \<^verbatim>\<open>write_callback\<close> block by block. The list of
  blocks is empty when the response has no body: libcurl then never calls the callback.
\<close>

datatype api = Sign_on | Start_backup | Task_status | Task_data | Sign_off

datatype http_method = GET | POST

record request =
  meth :: http_method
  url :: string
  headers :: "string list"
  postfields :: "string option"

datatype curl_result = CURLE_OK int "string list" | CURLE_FAILED string

datatype d_type = DT_REG | DT_OTHER

record dirent =
  d_type :: d_type
  d_name :: string

record env =
  getenv :: "string \<Rightarrow> string option"
  opendir :: "string \<Rightarrow> dirent list option"
  stat_size :: "string \<Rightarrow> int"
  timestamp :: string
  curl_easy_init :: "nat \<Rightarrow> api \<Rightarrow> bool"
  curl_easy_perform :: "nat \<Rightarrow> api \<Rightarrow> request \<Rightarrow> curl_result"

text \<open>
  \<^term>\<open>opendir E d\<close> is \<^term>\<open>None\<close> when the directory cannot be opened, and otherwise the
  entries \<^verbatim>\<open>readdir\<close> returns, in order. \<^term>\<open>timestamp E\<close> is the local time rendered by
  \<^verbatim>\<open>strftime\<close> with \<^verbatim>\<open>%Y%m%d_%H%M%S\<close>.

  What the process does to the world is recorded as a list of events, oldest first. A
  \<^verbatim>\<open>printf\<close> or \<^verbatim>\<open>fprintf\<close> is recorded with its format string and its arguments,
  not formatted. \<open>Invoke\<close> marks the entry into one of the request functions, \<open>Perform\<close>
  a call of \<^verbatim>\<open>curl_easy_perform\<close> by that function with the request as configured on
  the handle.
\<close>

datatype arg = S string | D int | P "string option"

datatype event =
    Invoke api
  | Perform api request
  | Stdout string "arg list"
  | Stderr string "arg list"
  | Sleep nat

definition check_mark :: string where
  \<comment> \<open>U+2713 in UTF-8\<close>
  "check_mark = [CHR 0xE2, CHR 0x9C, CHR 0x93]"

definition cross_mark :: string where
  \<comment> \<open>U+2717 in UTF-8\<close>
  "cross_mark = [CHR 0xE2, CHR 0x9C, CHR 0x97]"

definition rule_line :: string where
  "rule_line = replicate 70 CHR ''=''"

record state =
  inits :: nat
  events :: "event list"

definition emit :: "event list \<Rightarrow> state \<Rightarrow> state" where
  "emit es s = s\<lparr>events := events s @ es\<rparr>"

definition enter :: "api \<Rightarrow> state \<Rightarrow> state" where
  \<comment> \<open>entry into a request function, which calls \<^verbatim>\<open>curl_easy_init\<close> first\<close>
  "enter a s = s\<lparr>inits := inits s + 1, events := events s @ [Invoke a]\<rparr>"

definition c_str :: "string option \<Rightarrow> string" where
  \<comment> \<open>a \<^verbatim>\<open>%s\<close> argument; \<^verbatim>\<open>main\<close> never passes the \<^verbatim>\<open>NULL\<close> password on\<close>
  "c_str p = (case p of Some v \<Rightarrow> v | None \<Rightarrow> ''(null)'')"

section \<open>Undefined behaviour\<close>

text \<open>
  Three places of the source can leave the behaviour that C defines: the request body
  written past the end of its block, a response buffer read as a string before any
  terminator was stored in it, and the \<^verbatim>\<open>int\<close> product \<^verbatim>\<open>max_minutes * 12\<close>. The first two
  are outcomes of the model: a function that gets there stops with the fault and the
  state of the world at that point, and so does its caller. For the third the model takes
  the two's complement value of the product, which is what a compiler that does not
  exploit the overflow produces; the statements about a whole wait are made for the
  products that fit an \<^verbatim>\<open>int\<close>.
\<close>

datatype fault = Write_out_of_bounds | Uninitialised_read

type_synonym 'a outcome = "(fault \<times> state) + ('a \<times> state)"

definition and_then :: "'e + 'a \<Rightarrow> ('a \<Rightarrow> 'e + 'b) \<Rightarrow> 'e + 'b" where
  "and_then r f = (case r of Inl e \<Rightarrow> Inl e | Inr v \<Rightarrow> f v)"

definition int32 :: "int \<Rightarrow> int" where
  \<comment> \<open>the value of an \<^verbatim>\<open>int\<close> expression whose exact value is \<open>x\<close>\<close>
  "int32 x = (x + 2147483648) mod 4294967296 - 2147483648"

section \<open>Response buffer: \<^verbatim>\<open>write_callback\<close>\<close>

text \<open>
  Every request function that reads the response starts with
  \<^verbatim>\<open>chunk.data = malloc(1); chunk.size = 0;\<close>, which stores no byte in the block. The
  buffer is a C string only once \<^verbatim>\<open>write_callback\<close> has run: \<^term>\<open>None\<close> is the block as
  allocated, \<^term>\<open>Some d\<close> the block holding \<open>d\<close> and its terminator.
\<close>

type_synonym Response = "string option"

definition write_callback :: "string \<Rightarrow> Response \<Rightarrow> Response" where
  \<comment> \<open>\<^verbatim>\<open>memcpy(&(mem->data[mem->size]), contents, realsize); mem->size += realsize;
      mem->data[mem->size] = 0;\<close>\<close>
  "write_callback contents mem = Some ((case mem of None \<Rightarrow> [] | Some d \<Rightarrow> d) @ contents)"

definition received :: "string list \<Rightarrow> Response" where
  \<comment> \<open>the buffer after a transfer that delivered these blocks\<close>
  "received blocks = fold write_callback blocks None"

section \<open>Session manager: \<^verbatim>\<open>sp_sign_on\<close> and \<^verbatim>\<open>sp_sign_off\<close>\<close>

text \<open>
  \<^verbatim>\<open>sp_sign_on\<close> returns the task id and stores the session id through its out-parameter;
  the model takes the value the caller's variable holds before the call and returns the
  pair (task id, value of the variable after the call).
\<close>

definition signon_request :: "SPConfig \<Rightarrow> request" where
  \<open>signon_request config =
     (let url = snprintf MAX_URL_LEN (server_url config @ ''/api/baclient/signon'');
          payload = snprintf 1024
            (''{"nodeId":"'' @ node_id config @ ''","password":"''
               @ c_str (password config) @ ''"}'')
      in \<lparr>meth = POST, url = url,
          headers = [''Content-Type: application/json'', ''Accept: application/json''],
          postfields = Some payload\<rparr>)\<close>

definition sp_sign_on ::
  "env \<Rightarrow> SPConfig \<Rightarrow> string option \<Rightarrow> state \<Rightarrow> (string option \<times> string option) outcome"
where
  \<open>sp_sign_on E config session_id0 s =
     (let n = inits s; s0 = enter Sign_on s in
      if \<not> curl_easy_init E n Sign_on then Inr ((None, session_id0), s0)
      else
        let req = signon_request config;
            s1 = emit [Stdout ''Signing on to IBM Storage Protect...\<newline>'' [],
                       Stdout ''Server: %s\<newline>'' [S (server_url config)],
                       Stdout ''Node: %s\<newline>\<newline>'' [S (node_id config)],
                       Perform Sign_on req] s0
        in case curl_easy_perform E n Sign_on req of
             CURLE_OK response_code blocks \<Rightarrow>
               let chunk = received blocks in
               if response_code = 200 \<or> response_code = 201 then
                 let s2 = emit [Stdout (check_mark @ '' Sign-on successful\<newline>'') []] s1 in
                 (case chunk of
                    None \<Rightarrow> Inl (Uninitialised_read, s2)
                  | Some data \<Rightarrow>
                      let session_id = extract_json_value data ''sessionId'';
                          task_id = extract_json_value data ''taskId'';
                          s3 = (case session_id of
                                  Some v \<Rightarrow> emit [Stdout ''Session ID: %s\<newline>'' [S v]] s2
                                | None \<Rightarrow> s2);
                          s4 = (case task_id of
                                  Some v \<Rightarrow> emit [Stdout ''Task ID: %s\<newline>'' [S v]] s3
                                | None \<Rightarrow> s3)
                      in Inr ((task_id, session_id), s4))
               else
                 let s2 = emit [Stderr (cross_mark @ '' Sign-on failed (HTTP %ld)\<newline>'')
                                  [D response_code]] s1 in
                 (case chunk of
                    None \<Rightarrow> Inl (Uninitialised_read, s2)
                  | Some data \<Rightarrow>
                      Inr ((None, session_id0),
                           emit [Stderr ''Response: %s\<newline>'' [S data]] s2))
           | CURLE_FAILED strerror \<Rightarrow>
               Inr ((None, session_id0),
                    emit [Stderr (cross_mark @ '' Request failed: %s\<newline>'') [S strerror]] s1))\<close>

definition signoff_request :: "SPConfig \<Rightarrow> string \<Rightarrow> request" where
  \<open>signoff_request config session_id =
     (let url = snprintf MAX_URL_LEN (server_url config @ ''/api/baclient/signoff'');
          payload = snprintf 512 (''{"sessionId":"'' @ session_id @ ''"}'')
      in \<lparr>meth = POST, url = url,
          headers = [''Content-Type: application/json''],
          postfields = Some payload\<rparr>)\<close>

text \<open>The result of \<^verbatim>\<open>curl_easy_perform\<close> is not looked at.\<close>

definition sp_sign_off :: "env \<Rightarrow> SPConfig \<Rightarrow> string \<Rightarrow> state \<Rightarrow> state" where
  "sp_sign_off E config session_id s =
     (let n = inits s; s0 = enter Sign_off s in
      if \<not> curl_easy_init E n Sign_off then s0
      else
        emit [Stdout ''\<newline>Signing off...\<newline>'' [],
              Perform Sign_off (signoff_request config session_id)] s0)"

section \<open>Backup job submitter: \<^verbatim>\<open>sp_start_backup\<close>\<close>

text \<open>
  The request body is composed in a heap block of 8192 bytes by a chain of
  \<^verbatim>\<open>offset += snprintf(payload + offset, 8192 - offset, ...)\<close>. \<^verbatim>\<open>snprintf\<close> returns the
  length the text would have had, so after a cut \<^verbatim>\<open>offset\<close> is past the end of what
  was written. The third argument is a \<^verbatim>\<open>size_t\<close>: once \<^verbatim>\<open>offset\<close> exceeds 8192 the
  negative difference becomes a huge bound and the destination lies outside the block,
  which is a write out of bounds. With \<^verbatim>\<open>offset = 8192\<close> the bound is zero and nothing
  is written.
\<close>

record payload_buf =
  content :: string
  offset :: int

definition snprintf_at :: "payload_buf \<Rightarrow> string \<Rightarrow> fault + payload_buf" where
  "snprintf_at b text =
     (let room = 8192 - offset b in
      if room < 0 then Inl Write_out_of_bounds
      else Inr \<lparr>content = take (nat (offset b)) (content b) @ take (nat (room - 1)) text,
                offset = offset b + int (length text)\<rparr>)"

fun add_file_list :: "string list \<Rightarrow> payload_buf \<Rightarrow> fault + payload_buf" where
  "add_file_list [] b = Inr b"
| "add_file_list (f # fs) b =
     and_then (snprintf_at b ([dquote] @ f @ [dquote] @ (if fs \<noteq> [] then '','' else [])))
       (add_file_list fs)"

definition payload_head :: "string \<Rightarrow> string \<Rightarrow> string \<Rightarrow> string" where
  \<open>payload_head session_id backup_name backup_path =
     ''{"sessionId":"'' @ session_id @ ''","backupName":"'' @ backup_name
       @ ''","backupType":"ceph_downloads","backupPath":"'' @ backup_path @ ''"''\<close>

definition build_payload ::
  "string \<Rightarrow> string \<Rightarrow> string \<Rightarrow> FileList option \<Rightarrow> fault + string"
where
  \<open>build_payload session_id backup_name backup_path file_list =
     and_then (snprintf_at \<lparr>content = [], offset = 0\<rparr>
                 (payload_head session_id backup_name backup_path))
       (\<lambda>b1.
     and_then (case file_list of
                 Some files \<Rightarrow>
                   if length files > 0 then
                     and_then (snprintf_at b1 '',"fileList":['')
                       (\<lambda>b2. and_then (add_file_list files b2) (\<lambda>b3. snprintf_at b3 '']''))
                   else Inr b1
               | None \<Rightarrow> Inr b1)
       (\<lambda>b4.
     and_then (snprintf_at b4 ''}'') (\<lambda>b5. Inr (content b5))))\<close>

definition backup_request :: "SPConfig \<Rightarrow> string \<Rightarrow> request" where
  "backup_request config payload =
     (let url = snprintf MAX_URL_LEN (server_url config @ ''/api/baclient/backup'')
      in \<lparr>meth = POST, url = url,
          headers = [''Content-Type: application/json'', ''Accept: application/json''],
          postfields = Some payload\<rparr>)"

definition sp_start_backup ::
  "env \<Rightarrow> SPConfig \<Rightarrow> string \<Rightarrow> string \<Rightarrow> string \<Rightarrow> FileList option \<Rightarrow> state
     \<Rightarrow> string option outcome"
where
  "sp_start_backup E config session_id backup_path backup_name file_list s =
     (let n = inits s; s0 = enter Start_backup s in
      if \<not> curl_easy_init E n Start_backup then Inr (None, s0)
      else
        case build_payload session_id backup_name backup_path file_list of
          Inl f \<Rightarrow> Inl (f, s0)
        | Inr payload \<Rightarrow>
           (let req = backup_request config payload;
                s1 = emit [Stdout ''\<newline>%s\<newline>'' [S rule_line],
                           Stdout ''  STARTING BACKUP: %s\<newline>'' [S backup_name],
                           Stdout ''%s\<newline>'' [S rule_line],
                           Stdout ''Source directory: %s\<newline>'' [S backup_path]] s0;
                s2 = (case file_list of
                        Some files \<Rightarrow>
                          emit [Stdout ''Files to backup: %d\<newline>'' [D (int (length files))]] s1
                      | None \<Rightarrow> s1);
                s3 = emit [Perform Start_backup req] s2
            in case curl_easy_perform E n Start_backup req of
                 CURLE_OK response_code blocks \<Rightarrow>
                   let chunk = received blocks in
                   if response_code = 200 \<or> response_code = 201 \<or> response_code = 202 then
                     let s4 = emit [Stdout (check_mark @ '' Backup started successfully\<newline>'') []]
                                s3 in
                     (case chunk of
                        None \<Rightarrow> Inl (Uninitialised_read, s4)
                      | Some data \<Rightarrow>
                          let task_id = extract_json_value data ''taskId'';
                              s5 = (case task_id of
                                      Some v \<Rightarrow>
                                        emit [Stdout ''Backup task ID: %s\<newline>'' [S v]] s4
                                    | None \<Rightarrow> s4)
                          in Inr (task_id, s5))
                   else
                     let s4 = emit [Stderr (cross_mark @ '' Backup start failed (HTTP %ld)\<newline>'')
                                      [D response_code]] s3 in
                     (case chunk of
                        None \<Rightarrow> Inl (Uninitialised_read, s4)
                      | Some data \<Rightarrow>
                          Inr (None, emit [Stderr ''Response: %s\<newline>'' [S data]] s4))
               | CURLE_FAILED strerror \<Rightarrow>
                   Inr (None,
                        emit [Stderr (cross_mark @ '' Request failed: %s\<newline>'') [S strerror]]
                          s3)))"

section \<open>Task poller: \<^verbatim>\<open>sp_get_task_status\<close> and \<^verbatim>\<open>sp_wait_for_task\<close>\<close>

definition status_request :: "SPConfig \<Rightarrow> string \<Rightarrow> string \<Rightarrow> request" where
  "status_request config session_id task_id =
     (let url = snprintf MAX_URL_LEN
                  (server_url config @ ''/api/baclient/task/'' @ task_id @ ''/status'');
          session_header = snprintf 512 (''X-Session-Id: '' @ session_id)
      in \<lparr>meth = GET, url = url,
          headers = [''Accept: application/json'', session_header],
          postfields = None\<rparr>)"

definition sp_get_task_status ::
  "env \<Rightarrow> SPConfig \<Rightarrow> string \<Rightarrow> string \<Rightarrow> state \<Rightarrow> string option outcome"
where
  "sp_get_task_status E config session_id task_id s =
     (let n = inits s; s0 = enter Task_status s in
      if \<not> curl_easy_init E n Task_status then Inr (None, s0)
      else
        let req = status_request config session_id task_id;
            s1 = emit [Perform Task_status req] s0
        in case curl_easy_perform E n Task_status req of
             CURLE_OK response_code blocks \<Rightarrow>
               (case received blocks of
                  None \<Rightarrow> Inl (Uninitialised_read, s1)
                | Some data \<Rightarrow> Inr (extract_json_value data ''taskState'', s1))
           | CURLE_FAILED strerror \<Rightarrow> Inr (None, s1))"

text \<open>
  The loop \<^verbatim>\<open>for (int i = 0; i < max_attempts; i++)\<close> from the value \<open>i\<close> of its counter
  on. The result is the value returned and the state of the world at the return, or the
  fault of the status query that stopped the loop.
\<close>

function sp_wait_loop ::
  "env \<Rightarrow> SPConfig \<Rightarrow> string \<Rightarrow> string \<Rightarrow> int \<Rightarrow> int \<Rightarrow> state \<Rightarrow> int outcome"
where
  "sp_wait_loop E config session_id task_id max_attempts i s =
     (if i < max_attempts then
        (case sp_get_task_status E config session_id task_id s of
           Inl stopped \<Rightarrow> Inl stopped
         | Inr (task_state, s1) \<Rightarrow>
             (case task_state of
                Some st \<Rightarrow>
                  if st = ''Success'' then
                    Inr (1, emit [Stdout (check_mark @ '' Backup completed successfully\<newline>'') []] s1)
                  else if st = ''Failed'' \<or> st = ''Error'' then
                    Inr (0, emit [Stderr (cross_mark @ '' Backup failed with state: %s\<newline>'')
                                    [S st]] s1)
                  else
                    sp_wait_loop E config session_id task_id max_attempts (i + 1)
                      (emit [Sleep 5]
                         (if (st = ''Running'' \<or> st = ''Pending'') \<and> i mod 6 = 0
                          then emit [Stdout ''  Status: %s... (checking again in 5s)\<newline>'' [S st]]
                                 s1
                          else s1))
              | None \<Rightarrow>
                  sp_wait_loop E config session_id task_id max_attempts (i + 1)
                    (emit [Sleep 5] s1)))
      else
        Inr (0, emit [Stderr (cross_mark @ '' Timeout waiting for backup to complete\<newline>'') []]
                  s))"
  by pat_completeness auto
termination
  by (relation "measure (\<lambda>(E, config, session_id, task_id, max_attempts, i, s).
                           nat (max_attempts - i))") auto

declare sp_wait_loop.simps [simp del]

text \<open>
  \<^verbatim>\<open>int max_attempts = max_minutes * 12;\<close> is \<^verbatim>\<open>int\<close> arithmetic. The counter \<open>i\<close> stays
  below \<^verbatim>\<open>max_attempts\<close>, so \<^verbatim>\<open>i++\<close> and \<^verbatim>\<open>i % 6\<close> are exact.
\<close>

definition sp_wait_for_task ::
  "env \<Rightarrow> SPConfig \<Rightarrow> string \<Rightarrow> string \<Rightarrow> int \<Rightarrow> state \<Rightarrow> int outcome"
where
  "sp_wait_for_task E config session_id task_id max_minutes s =
     (let max_attempts = int32 (max_minutes * 12) in
      sp_wait_loop E config session_id task_id max_attempts 0
        (emit [Stdout ''\<newline>Waiting for backup to complete (max %d minutes)...\<newline>''
                 [D max_minutes]] s))"

section \<open>Result reporter: \<^verbatim>\<open>sp_get_task_data\<close>\<close>

definition data_request :: "SPConfig \<Rightarrow> string \<Rightarrow> string \<Rightarrow> request" where
  "data_request config session_id task_id =
     (let url = snprintf MAX_URL_LEN (server_url config @ ''/api/baclient/task/'' @ task_id);
          session_header = snprintf 512 (''X-Session-Id: '' @ session_id)
      in \<lparr>meth = GET, url = url,
          headers = [''Accept: application/json'', session_header],
          postfields = None\<rparr>)"

definition sp_get_task_data ::
  "env \<Rightarrow> SPConfig \<Rightarrow> string \<Rightarrow> string \<Rightarrow> state \<Rightarrow> unit outcome"
where
  "sp_get_task_data E config session_id task_id s =
     (let n = inits s; s0 = enter Task_data s in
      if \<not> curl_easy_init E n Task_data then Inr ((), s0)
      else
        let req = data_request config session_id task_id;
            s1 = emit [Perform Task_data req] s0
        in case curl_easy_perform E n Task_data req of
             CURLE_OK response_code blocks \<Rightarrow>
               (case received blocks of
                  None \<Rightarrow> Inl (Uninitialised_read, s1)
                | Some data \<Rightarrow>
                    let total_files = extract_json_value data ''totalFiles'';
                        completed_files = extract_json_value data ''totalCompletedFiles'';
                        failed_files = extract_json_value data ''totalFailedFiles'';
                        total_bytes = extract_json_value data ''totalBytes'';
                        s2 = emit [Stdout ''\<newline>%s\<newline>'' [S rule_line],
                                   Stdout ''  BACKUP COMPLETED SUCCESSFULLY\<newline>'' [],
                                   Stdout ''%s\<newline>'' [S rule_line]] s1;
                        s3 = (case (completed_files, total_files) of
                                (Some c, Some t) \<Rightarrow>
                                  emit [Stdout ''Files processed: %s/%s\<newline>'' [S c, S t]] s2
                              | _ \<Rightarrow> s2);
                        s4 = (case failed_files of
                                Some f \<Rightarrow> emit [Stdout ''Files failed: %s\<newline>'' [S f]] s3
                              | None \<Rightarrow> s3);
                        s5 = (case total_bytes of
                                Some b \<Rightarrow> emit [Stdout ''Total size: %s bytes\<newline>'' [S b]] s4
                              | None \<Rightarrow> s4)
                    in Inr ((), emit [Stdout ''Task ID: %s\<newline>'' [S task_id]] s5))
           | CURLE_FAILED strerror \<Rightarrow> Inr ((), s1))"

section \<open>File enumerator: \<^verbatim>\<open>scan_directory\<close>\<close>

text \<open>
  The \<^verbatim>\<open>readdir\<close> loop over the entries not yet read, with the paths collected so far.
\<close>

fun scan_entries :: "string \<Rightarrow> dirent list \<Rightarrow> FileList \<Rightarrow> FileList" where
  "scan_entries dir_path [] files = files"
| "scan_entries dir_path (entry # rest) files =
     (if length files < MAX_FILES then
        scan_entries dir_path rest
          (if d_type entry = DT_REG
              \<and> strrchr (d_name entry) CHR ''.'' = Some ''.txt''
           then files @ [snprintf MAX_PATH_LEN (dir_path @ ''/'' @ d_name entry)]
           else files)
      else files)"

definition scan_directory :: "env \<Rightarrow> string \<Rightarrow> state \<Rightarrow> FileList \<times> state" where
  "scan_directory E dir_path s =
     (case opendir E dir_path of
        None \<Rightarrow> ([], emit [Stderr ''Error: Cannot open directory '%s'\<newline>'' [S dir_path]] s)
      | Some entries \<Rightarrow> (scan_entries dir_path entries [], s))"

section \<open>Orchestrator: \<^verbatim>\<open>main\<close>\<close>

text \<open>
  \<^verbatim>\<open>main\<close> with its argument vector (\<^verbatim>\<open>argc\<close> is the length of the list). The result
  is the exit status with the final state of the world, or the fault that stopped the
  run with the state of the world at that point.
\<close>

definition usage :: "string list \<Rightarrow> event list" where
  "usage argv =
     [Stderr ''Error: SP_PASSWORD environment variable not set\<newline>'' [],
      Stderr ''\<newline>Usage: %s [download_directory]\<newline>''
        [P (case argv of [] \<Rightarrow> None | a # _ \<Rightarrow> Some a)],
      Stderr ''\<newline>Environment variables:\<newline>'' [],
      Stderr ''  SP_SERVER_URL  - Storage Protect server (default: http://spserver:1580)\<newline>'' [],
      Stderr ''  SP_NODE_ID     - Node ID (default: APPLEBEES)\<newline>'' [],
      Stderr ''  SP_PASSWORD    - Password (required)\<newline>'' [],
      Stderr ''  SP_BACKUP_DIR  - Backup directory (default: /sp_backups/ceph_downloads)\<newline>'' []]"

definition file_line :: "env \<Rightarrow> string \<Rightarrow> event" where
  \<comment> \<open>\<^verbatim>\<open>stat(files->files[i], &st);
      printf("  - %s (%ld bytes)\n", strrchr(files->files[i], '/') + 1, st.st_size);\<close>\<close>
  "file_line E f =
     Stdout ''  - %s (%ld bytes)\<newline>''
       [P (map_option tl (strrchr f CHR ''/'')), D (stat_size E f)]"

definition load_config :: "env \<Rightarrow> SPConfig" where
  "load_config E =
     \<lparr>server_url = (case getenv E ''SP_SERVER_URL'' of
                      Some v \<Rightarrow> v | None \<Rightarrow> ''http://spserver:1580''),
      node_id = (case getenv E ''SP_NODE_ID'' of Some v \<Rightarrow> v | None \<Rightarrow> ''APPLEBEES''),
      password = getenv E ''SP_PASSWORD'',
      backup_directory = (case getenv E ''SP_BACKUP_DIR'' of
                            Some v \<Rightarrow> v | None \<Rightarrow> ''/sp_backups/ceph_downloads'')\<rparr>"

definition download_directory :: "string list \<Rightarrow> string" where
  \<comment> \<open>\<^verbatim>\<open>argc > 1 ? argv[1] : "downloads"\<close>\<close>
  "download_directory argv = (if length argv > 1 then argv ! 1 else ''downloads'')"

definition main :: "env \<Rightarrow> string list \<Rightarrow> int outcome" where
  "main E argv =
     (let config = load_config E;
          download_dir = download_directory argv;
          s0 = \<lparr>inits = 0, events = []\<rparr>
      in
      if password config = None then Inr (1, emit (usage argv) s0)
      else
        let s1 = emit [Stdout ''%s\<newline>'' [S rule_line],
                       Stdout ''  IBM STORAGE PROTECT - C UPLOADER\<newline>'' [],
                       Stdout ''%s\<newline>'' [S rule_line],
                       Stdout ''\<newline>Scanning directory: %s\<newline>'' [S download_dir]] s0;
            scanned = scan_directory E download_dir s1;
            files = fst scanned; s2 = snd scanned
        in
        if length files = 0 then
          Inr (0, emit [Stderr ''WARNING: No .txt files found in %s\<newline>'' [S download_dir]] s2)
        else
          let s3 = emit ([Stdout ''Found %d file(s) to backup:\<newline>'' [D (int (length files))]]
                         @ map (file_line E) files
                         @ [Stdout ''\<newline>%s\<newline>'' [S rule_line],
                            Stdout ''  SIGNING ON TO IBM STORAGE PROTECT\<newline>'' [],
                            Stdout ''%s\<newline>'' [S rule_line]]) s2
          in
          and_then (sp_sign_on E config None s3)
            (\<lambda>((signon_task_id, session_id), s4).
               case session_id of
                 None \<Rightarrow> Inr (1, emit [Stderr ''Failed to sign on\<newline>'' []] s4)
               | Some sid \<Rightarrow>
                   let backup_name = ''ceph_downloads_'' @ timestamp E in
                   and_then
                     (sp_start_backup E config sid download_dir backup_name (Some files) s4)
                     (\<lambda>(backup_task_id, s5).
                        case backup_task_id of
                          None \<Rightarrow>
                            Inr (1, sp_sign_off E config sid
                                      (emit [Stderr ''Failed to start backup\<newline>'' []] s5))
                        | Some tid \<Rightarrow>
                            and_then (sp_wait_for_task E config sid tid 10 s5)
                              (\<lambda>(success, s6).
                                 and_then
                                   (if success \<noteq> 0
                                    then sp_get_task_data E config sid tid s6
                                    else Inr ((), s6))
                                   (\<lambda>(reported, s7).
                                      Inr (if success \<noteq> 0 then 0 else 1,
                                           sp_sign_off E config sid s7))))))"

section \<open>Observations on a run\<close>

text \<open>
  The vocabulary of the statements below: what a call returned and the world it left,
  how often a request function was entered, the requests put on the wire, what a status
  query made on the \<open>n\<close>-th handle reports, which reports end the wait, and the exit
  status of a run.
\<close>

definition returned :: "'a outcome \<Rightarrow> fault + 'a" where
  "returned r = (case r of Inl (f, s) \<Rightarrow> Inl f | Inr (v, s) \<Rightarrow> Inr v)"

definition world :: "'a outcome \<Rightarrow> state" where
  \<comment> \<open>the state of the world at the return, or at the fault\<close>
  "world r = (case r of Inl (f, s) \<Rightarrow> s | Inr (v, s) \<Rightarrow> s)"

definition fits_int :: "int \<Rightarrow> bool" where
  \<comment> \<open>the values of a 32-bit \<^verbatim>\<open>int\<close>\<close>
  "fits_int x \<longleftrightarrow> - 2147483648 \<le> x \<and> x \<le> 2147483647"

definition first_match :: "string \<Rightarrow> string \<Rightarrow> string \<Rightarrow> bool" where
  \<comment> \<open>in \<open>pre @ pat @ rest\<close>, the pattern does not occur at any position inside \<open>pre\<close>\<close>
  "first_match pat pre rest \<longleftrightarrow> (\<forall>j<length pre. \<not> prefix pat (drop j (pre @ pat @ rest)))"

text \<open>
  The request body \<^verbatim>\<open>sp_start_backup\<close> sets out to compose, as one text: what the chain
  of \<^verbatim>\<open>snprintf\<close> calls formats, with nothing cut.
\<close>

fun file_entries :: "string list \<Rightarrow> string" where
  "file_entries [] = []"
| "file_entries (f # fs) =
     [dquote] @ f @ [dquote] @ (if fs \<noteq> [] then '','' else []) @ file_entries fs"

definition full_body :: "string \<Rightarrow> string \<Rightarrow> string \<Rightarrow> FileList option \<Rightarrow> string" where
  \<open>full_body session_id backup_name backup_path file_list =
     payload_head session_id backup_name backup_path
       @ (case file_list of
            Some files \<Rightarrow>
              if length files > 0 then '',"fileList":['' @ file_entries files @ '']'' else []
          | None \<Rightarrow> [])
       @ ''}''\<close>

definition written :: "string \<Rightarrow> payload_buf" where
  \<comment> \<open>the block and the offset after texts that add up to \<open>t\<close> have been formatted into it\<close>
  "written t = \<lparr>content = take 8191 t, offset = int (length t)\<rparr>"

definition calls :: "api \<Rightarrow> state \<Rightarrow> nat" where
  "calls a s = count_list (events s) (Invoke a)"

fun is_perform :: "event \<Rightarrow> bool" where
  "is_perform (Perform a r) = True"
| "is_perform e = False"

definition requests :: "state \<Rightarrow> event list" where
  "requests s = filter is_perform (events s)"

fun submitted :: "event \<Rightarrow> request option" where
  "submitted (Perform a r) = (if a = Start_backup then Some r else None)"
| "submitted e = None"

definition submissions :: "state \<Rightarrow> request list" where
  \<comment> \<open>the job-submission requests put on the wire\<close>
  "submissions s = List.map_filter submitted (events s)"

definition signon_session :: "env \<Rightarrow> SPConfig \<Rightarrow> nat \<Rightarrow> fault + string option" where
  \<comment> \<open>the session id a sign-on on handle \<open>n\<close> leaves in the caller's variable, which
      holds \<^verbatim>\<open>NULL\<close> before the call\<close>
  "signon_session E config n =
     (case returned (sp_sign_on E config None \<lparr>inits = n, events = []\<rparr>) of
        Inl f \<Rightarrow> Inl f
      | Inr (task_id, session_id) \<Rightarrow> Inr session_id)"

definition found_files :: "env \<Rightarrow> string \<Rightarrow> FileList" where
  \<comment> \<open>the list \<^verbatim>\<open>scan_directory\<close> returns\<close>
  "found_files E dir_path = fst (scan_directory E dir_path \<lparr>inits = 0, events = []\<rparr>)"

fun is_stderr :: "event \<Rightarrow> bool" where
  "is_stderr (Stderr f args) = True"
| "is_stderr e = False"

definition diagnostics :: "state \<Rightarrow> event list" where
  "diagnostics s = filter is_stderr (events s)"

definition observed :: "env \<Rightarrow> SPConfig \<Rightarrow> string \<Rightarrow> string \<Rightarrow> nat \<Rightarrow> fault + string option"
where
  "observed E config session_id task_id n =
     returned (sp_get_task_status E config session_id task_id \<lparr>inits = n, events = []\<rparr>)"

definition is_terminal :: "string option \<Rightarrow> bool" where
  "is_terminal st \<longleftrightarrow> st = Some ''Success'' \<or> st = Some ''Failed'' \<or> st = Some ''Error''"

definition ends_wait :: "fault + string option \<Rightarrow> bool" where
  \<comment> \<open>the query returned a terminal state\<close>
  "ends_wait ob = (case ob of Inl f \<Rightarrow> False | Inr st \<Rightarrow> is_terminal st)"

definition goes_on :: "fault + string option \<Rightarrow> bool" where
  \<comment> \<open>the query returned, with no state or with a state that is not terminal\<close>
  "goes_on ob = (case ob of Inl f \<Rightarrow> False | Inr st \<Rightarrow> \<not> is_terminal st)"

definition first_terminal :: "env \<Rightarrow> SPConfig \<Rightarrow> string \<Rightarrow> string \<Rightarrow> nat \<Rightarrow> nat \<Rightarrow> bool" where
  \<comment> \<open>of the status queries made on the handles \<open>n0, n0 + 1, ...\<close>, the one on handle
      \<open>n0 + k\<close> is the first that does not let the wait go on, and it reports a terminal
      state\<close>
  "first_terminal E config session_id task_id n0 k \<longleftrightarrow>
     ends_wait (observed E config session_id task_id (n0 + k))
     \<and> (\<forall>j<k. goes_on (observed E config session_id task_id (n0 + j)))"

definition with_sign_off ::
  "(nat \<Rightarrow> bool) \<Rightarrow> (nat \<Rightarrow> request \<Rightarrow> curl_result) \<Rightarrow> env \<Rightarrow> env"
where
  \<comment> \<open>the same world, except for what happens to the handles of \<^verbatim>\<open>sp_sign_off\<close>\<close>
  "with_sign_off init perform E =
     E\<lparr>curl_easy_init := (\<lambda>n a. if a = Sign_off then init n else curl_easy_init E n a),
       curl_easy_perform :=
         (\<lambda>n a r. if a = Sign_off then perform n r else curl_easy_perform E n a r)\<rparr>"

definition exit_status :: "int outcome \<Rightarrow> fault + int" where
  "exit_status r = returned r"

text \<open>
  Names for the two tails of \<^verbatim>\<open>main\<close>: what it does with the task id of the submission,
  and what it does with the result of the sign-on.
\<close>

abbreviation finish_backup ::
  "env \<Rightarrow> SPConfig \<Rightarrow> string \<Rightarrow> string option \<times> state \<Rightarrow> int outcome"
where
  "finish_backup E config sid \<equiv>
     (\<lambda>(backup_task_id, s5).
        case backup_task_id of
          None \<Rightarrow>
            Inr (1, sp_sign_off E config sid
                      (emit [Stderr ''Failed to start backup\<newline>'' []] s5))
        | Some tid \<Rightarrow>
            and_then (sp_wait_for_task E config sid tid 10 s5)
              (\<lambda>(success, s6).
                 and_then
                   (if success \<noteq> 0
                    then sp_get_task_data E config sid tid s6
                    else Inr ((), s6))
                   (\<lambda>(reported, s7).
                      Inr (if success \<noteq> 0 then 0 else 1,
                           sp_sign_off E config sid s7))))"

abbreviation after_sign_on ::
  "env \<Rightarrow> SPConfig \<Rightarrow> string \<Rightarrow> FileList
     \<Rightarrow> (string option \<times> string option) \<times> state \<Rightarrow> int outcome"
where
  "after_sign_on E config download_dir files \<equiv>
     (\<lambda>((signon_task_id, session_id), s4).
        case session_id of
          None \<Rightarrow> Inr (1, emit [Stderr ''Failed to sign on\<newline>'' []] s4)
        | Some sid \<Rightarrow>
            and_then
              (sp_start_backup E config sid download_dir (''ceph_downloads_'' @ timestamp E)
                 (Some files) s4)
              (finish_backup E config sid))"

section \<open>Concrete inputs\<close>

text \<open>A key of 253 characters, and a body in which it is a value and not a key.\<close>

definition long_key :: string where
  "long_key = replicate 253 CHR ''a''"

definition decoy_body :: string where
  \<open>decoy_body = ''{"x":"'' @ long_key @ ''"}''\<close>

text \<open>
  Thirty-six regular files with names of 250 characters in the directory \<^verbatim>\<open>downloads\<close>,
  and the paths \<^verbatim>\<open>scan_directory\<close> builds for them.
\<close>

definition big_names :: "string list" where
  "big_names = map (\<lambda>c. replicate 246 c @ ''.txt'') ''abcdefghijklmnopqrstuvwxyz0123456789''"

definition big_manifest :: FileList where
  "big_manifest = map (\<lambda>name. ''downloads/'' @ name) big_names"

text \<open>
  A configuration, and a server that accepts the sign-on, the submission, the detail
  query and the sign-off and answers the status query made on handle \<open>n\<close> as a script
  says. The sign-on response arrives in two blocks, the others in one. One regular file
  \<^verbatim>\<open>report.txt\<close> is in \<^verbatim>\<open>downloads\<close>.
\<close>

definition test_config :: SPConfig where
  "test_config =
     \<lparr>server_url = ''http://spserver:1580'', node_id = ''APPLEBEES'',
      password = Some ''secret'', backup_directory = ''/sp_backups/ceph_downloads''\<rparr>"

definition status_body :: "string \<Rightarrow> string" where
  \<open>status_body st = ''{"taskState":"'' @ st @ ''"}''\<close>

definition scripted_env :: "(nat \<Rightarrow> curl_result) \<Rightarrow> env" where
  \<open>scripted_env script =
     \<lparr>getenv = (\<lambda>v. if v = ''SP_PASSWORD'' then Some ''secret'' else None),
      opendir = (\<lambda>d. if d = ''downloads''
                      then Some [\<lparr>d_type = DT_REG, d_name = ''report.txt''\<rparr>] else None),
      stat_size = (\<lambda>f. 2048),
      timestamp = ''20260101_120000'',
      curl_easy_init = (\<lambda>n a. True),
      curl_easy_perform = (\<lambda>n a r.
        case a of
          Sign_on \<Rightarrow> CURLE_OK 200 [''{"sessionId":"S1",'', ''"taskId":"T0"}'']
        | Start_backup \<Rightarrow> CURLE_OK 202 [''{"taskId":"T1"}'']
        | Task_status \<Rightarrow> script n
        | Task_data \<Rightarrow>
            CURLE_OK 200
              [''{"totalFiles":1,"totalCompletedFiles":1,"totalFailedFiles":0,"totalBytes":2048}'']
        | Sign_off \<Rightarrow> CURLE_OK 200 [''{}''])\<rparr>\<close>

definition stalled_env :: env where
  "stalled_env = scripted_env (\<lambda>n. CURLE_OK 200 [status_body ''Running''])"

definition failing_env :: env where
  "failing_env = scripted_env (\<lambda>n. CURLE_OK 200 [status_body ''Failed''])"

definition flaky_env :: env where
  "flaky_env = scripted_env (\<lambda>n.
     if n = 3 then CURLE_FAILED ''Timeout was reached''
     else if n < 5 then CURLE_OK 200 [status_body ''Running'']
     else CURLE_OK 200 [status_body ''Success''])"

definition start_state :: state where
  "start_state = \<lparr>inits = 0, events = []\<rparr>"

definition on_handle :: "nat \<Rightarrow> state" where
  \<comment> \<open>a process that has asked for \<open>n\<close> handles so far, its earlier events left out\<close>
  "on_handle n = \<lparr>inits = n, events = []\<rparr>"

text \<open>
  Variations: a directory with no regular \<^verbatim>\<open>.txt\<close> file, a directory that cannot be
  opened, and a server whose sign-on response carries a task id and no session id.
\<close>

definition empty_dir_env :: env where
  "empty_dir_env =
     stalled_env\<lparr>opendir := (\<lambda>d. Some [\<lparr>d_type = DT_REG, d_name = ''notes.md''\<rparr>,
                                          \<lparr>d_type = DT_OTHER, d_name = ''old.txt''\<rparr>])\<rparr>"

definition no_dir_env :: env where
  "no_dir_env = stalled_env\<lparr>opendir := (\<lambda>d. None)\<rparr>"

definition no_session_env :: env where
  \<open>no_session_env =
     stalled_env\<lparr>curl_easy_perform := (\<lambda>n a r.
       if a = Sign_on then CURLE_OK 200 [''{"taskId":"T0"}'']
       else curl_easy_perform stalled_env n a r)\<rparr>\<close>

definition big_env :: env where
  "big_env =
     stalled_env\<lparr>opendir := (\<lambda>d.
       if d = ''downloads''
       then Some (map (\<lambda>name. \<lparr>d_type = DT_REG, d_name = name\<rparr>) big_names)
       else None)\<rparr>"

text \<open>
  Servers that answer with a response code and no body: to the sign-on, to the job
  submission, and to the second status query of a wait that starts on handle 2.
\<close>

definition empty_signon_env :: env where
  "empty_signon_env =
     stalled_env\<lparr>curl_easy_perform := (\<lambda>n a r.
       if a = Sign_on then CURLE_OK 200 []
       else curl_easy_perform stalled_env n a r)\<rparr>"

definition empty_submit_env :: env where
  "empty_submit_env =
     stalled_env\<lparr>curl_easy_perform := (\<lambda>n a r.
       if a = Start_backup then CURLE_OK 202 []
       else curl_easy_perform stalled_env n a r)\<rparr>"

definition empty_status_env :: env where
  "empty_status_env = scripted_env (\<lambda>n.
     if n = 3 then CURLE_OK 200 [] else CURLE_OK 200 [status_body ''Running''])"

text \<open>The file \<^verbatim>\<open>report.txt\<close> in another directory, named on the command line.\<close>

definition archive_env :: env where
  "archive_env =
     failing_env\<lparr>opendir := (\<lambda>d.
       if d = ''/var/archive''
       then Some [\<lparr>d_type = DT_REG, d_name = ''report.txt''\<rparr>] else None)\<rparr>"

section \<open>The response decoder\<close>

lemma strstr_None_iff: "strstr s pat = None \<longleftrightarrow> \<not> sublist pat s"
  by (induction s) (auto simp: sublist_Cons_right)

lemma strstr_first:
  assumes "first_match pat pre rest" and "pat \<noteq> []"
  shows "strstr (pre @ pat @ rest) pat = Some (pat @ rest)"
  using assms
proof (induction pre)
  case Nil
  then show ?case by (cases pat) auto
next
  case (Cons a pre)
  from Cons.prems(1) have "\<not> prefix pat (drop 0 ((a # pre) @ pat @ rest))"
    unfolding first_match_def by blast
  hence np: "\<not> prefix pat (a # pre @ pat @ rest)" by simp
  have "first_match pat pre rest"
    unfolding first_match_def
  proof (intro allI impI)
    fix j assume "j < length pre"
    hence "Suc j < length (a # pre)" by simp
    with Cons.prems(1) have "\<not> prefix pat (drop (Suc j) ((a # pre) @ pat @ rest))"
      unfolding first_match_def by blast
    thus "\<not> prefix pat (drop j (pre @ pat @ rest))" by simp
  qed
  with Cons.IH Cons.prems(2) have "strstr (pre @ pat @ rest) pat = Some (pat @ rest)" by blast
  with np show ?case by simp
qed

lemma strchr_first: "ch \<notin> set v \<Longrightarrow> strchr (v @ ch # rest) ch = Some (ch # rest)"
  by (induction v) auto

lemma search_pattern_short: "length key \<le> 252 \<Longrightarrow> search_pattern key = key_colon key"
  by (simp add: search_pattern_def snprintf_def key_colon_def)

lemma dropWhile_spaces:
  "list_all is_space ws \<Longrightarrow> xs = [] \<or> \<not> is_space (hd xs) \<Longrightarrow> dropWhile is_space (ws @ xs) = xs"
  by (induction ws) (cases xs; auto)+

lemma dquote_not_space: "\<not> is_space dquote"
  by (simp add: is_space_def dquote_def)

lemma extract_quoted:
  assumes "length key \<le> 252"
    and "first_match (key_colon key) pre (ws @ dquote # v @ dquote # rest)"
    and "list_all is_space ws" and "dquote \<notin> set v"
  shows "extract_json_value (pre @ key_colon key @ ws @ dquote # v @ dquote # rest) key = Some v"
proof -
  have pat: "search_pattern key = key_colon key"
    using assms(1) by (rule search_pattern_short)
  have ne: "key_colon key \<noteq> []" by (simp add: key_colon_def)
  have "strstr (pre @ key_colon key @ ws @ dquote # v @ dquote # rest) (key_colon key)
        = Some (key_colon key @ ws @ dquote # v @ dquote # rest)"
    using strstr_first[OF assms(2) ne] .
  moreover have "dropWhile is_space (ws @ dquote # v @ dquote # rest) = dquote # v @ dquote # rest"
    using assms(3) by (simp add: dropWhile_spaces dquote_not_space)
  ultimately show ?thesis
    using assms(4) by (simp add: extract_json_value_def pat strchr_first)
qed

lemma extract_bare:
  assumes "length key \<le> 252"
    and "first_match (key_colon key) pre (ws @ tok @ rest)"
    and "list_all is_space ws" and "tok \<noteq> []" and "\<not> is_space (hd tok)"
    and "hd tok \<noteq> dquote"
    and "list_all (\<lambda>c. \<not> is_delim c) tok" and "rest = [] \<or> is_delim (hd rest)"
  shows "extract_json_value (pre @ key_colon key @ ws @ tok @ rest) key = Some tok"
proof -
  have pat: "search_pattern key = key_colon key"
    using assms(1) by (rule search_pattern_short)
  have ne: "key_colon key \<noteq> []" by (simp add: key_colon_def)
  have "strstr (pre @ key_colon key @ ws @ tok @ rest) (key_colon key)
        = Some (key_colon key @ ws @ tok @ rest)"
    using strstr_first[OF assms(2) ne] .
  moreover have "dropWhile is_space (ws @ tok @ rest) = tok @ rest"
    using assms(3,4,5) by (simp add: dropWhile_spaces)
  moreover have "takeWhile (\<lambda>c. \<not> is_delim c) (tok @ rest) = tok"
    using assms(7,8) by (induction tok) (cases rest; auto)+
  moreover obtain c tok' where "tok = c # tok'"
    using assms(4) by (cases tok) auto
  ultimately show ?thesis
    using assms(6) by (simp add: extract_json_value_def pat)
qed

lemma extract_absent:
  assumes "\<not> sublist (search_pattern key) body"
  shows "extract_json_value body key = None"
proof -
  from assms have "strstr body (search_pattern key) = None"
    by (simp add: strstr_None_iff)
  thus ?thesis by (simp add: extract_json_value_def)
qed

lemmas decoder_defs =
  extract_json_value_def search_pattern_def key_colon_def snprintf_def dquote_def
  is_space_def is_delim_def

text \<open>
  C6, as the claim states it, fails for long keys. The search text is built in a buffer
  of 256 bytes, so for a key of 253 characters the colon of \<open>"key":\<close> is cut off and the
  decoder looks for \<open>"key"\<close> alone. In \<^term>\<open>decoy_body\<close> the key occurs only as the value
  of another field: \<open>"key":\<close> is not in the body, yet the decoder returns the empty
  string instead of reporting the key absent.
\<close>

theorem extract_long_key_counterexample:
  "\<not> sublist (key_colon long_key) decoy_body
   \<and> extract_json_value decoy_body long_key = Some []"
  by code_simp

text \<open>
  C6, amended. For every key of at most 252 characters and every body:
  where the first occurrence of \<open>"key":\<close> in the body is followed, after any blanks, tabs
  and newlines, by a quoted value, the decoder returns exactly the characters between
  the two quotes; where it is followed by a bare token that runs up to a \<open>,\<close>, \<open>}\<close> or
  \<open>]\<close> (or the end of the body), the decoder returns that token; where \<open>"key":\<close> does
  not occur in the body, the decoder returns absent (\<^term>\<open>None\<close>). In particular the
  three examples of the specification hold.
\<close>

theorem extract_json_value_contract:
  \<open>length key \<le> 252 \<Longrightarrow>
     (\<forall>pre ws v rest.
         first_match (key_colon key) pre (ws @ dquote # v @ dquote # rest)
           \<and> list_all is_space ws \<and> dquote \<notin> set v
         \<longrightarrow> extract_json_value (pre @ key_colon key @ ws @ dquote # v @ dquote # rest) key
               = Some v)
   \<and> (\<forall>pre ws tok rest.
         first_match (key_colon key) pre (ws @ tok @ rest)
           \<and> list_all is_space ws
           \<and> tok \<noteq> [] \<and> \<not> is_space (hd tok) \<and> hd tok \<noteq> dquote
           \<and> list_all (\<lambda>c. \<not> is_delim c) tok
           \<and> (rest = [] \<or> is_delim (hd rest))
         \<longrightarrow> extract_json_value (pre @ key_colon key @ ws @ tok @ rest) key = Some tok)
   \<and> (\<forall>body. \<not> sublist (key_colon key) body \<longrightarrow> extract_json_value body key = None)
   \<and> extract_json_value ''{"k":"v"}'' ''k'' = Some ''v''
   \<and> extract_json_value ''{"k":42}'' ''k'' = Some ''42''
   \<and> extract_json_value ''{"k":"v"}'' ''missing'' = None\<close>
proof (intro conjI allI impI)
  fix pre ws v rest
  assume "length key \<le> 252"
    and "first_match (key_colon key) pre (ws @ dquote # v @ dquote # rest)
           \<and> list_all is_space ws \<and> dquote \<notin> set v"
  thus "extract_json_value (pre @ key_colon key @ ws @ dquote # v @ dquote # rest) key = Some v"
    by (simp add: extract_quoted)
next
  fix pre ws tok rest
  assume "length key \<le> 252"
    and "first_match (key_colon key) pre (ws @ tok @ rest)
           \<and> list_all is_space ws
           \<and> tok \<noteq> [] \<and> \<not> is_space (hd tok) \<and> hd tok \<noteq> dquote
           \<and> list_all (\<lambda>c. \<not> is_delim c) tok
           \<and> (rest = [] \<or> is_delim (hd rest))"
  thus "extract_json_value (pre @ key_colon key @ ws @ tok @ rest) key = Some tok"
    by (intro extract_bare) simp_all
next
  fix body
  assume "length key \<le> 252" and "\<not> sublist (key_colon key) body"
  thus "extract_json_value body key = None"
    by (simp add: extract_absent search_pattern_short)
qed (simp_all add: decoder_defs)

theorem extract_json_value_contract_witness:
  \<open>length ''k'' \<le> (252::nat)
   \<and> first_match (key_colon ''k'') ''{"a":1,'' ('' '' @ dquote # ''v'' @ dquote # ''}'')
   \<and> extract_json_value ''{"a":1,"k": "v"}'' ''k'' = Some ''v''
   \<and> first_match (key_colon ''k'') ''{"a":1,'' ([] @ ''42'' @ ''}'')
   \<and> extract_json_value ''{"a":1,"k":42}'' ''k'' = Some ''42''
   \<and> \<not> sublist (key_colon ''k'') ''{"a":1}''
   \<and> extract_json_value ''{"a":1}'' ''k'' = None\<close>
proof -
  have len: "length ''k'' \<le> (252::nat)" by simp
  have fm: "first_match (key_colon ''k'') pre rest"
    if "list_all (\<lambda>j. \<not> prefix (key_colon ''k'') (drop j (pre @ key_colon ''k'' @ rest)))
          [0..<length pre]" for pre rest
    using that by (simp add: first_match_def list_all_iff)
  have f1: \<open>first_match (key_colon ''k'') ''{"a":1,'' ('' '' @ dquote # ''v'' @ dquote # ''}'')\<close>
    by (rule fm) code_simp
  have f2: \<open>first_match (key_colon ''k'') ''{"a":1,'' ([] @ ''42'' @ ''}'')\<close>
    by (rule fm) code_simp
  have f3: \<open>\<not> sublist (key_colon ''k'') ''{"a":1}''\<close>
    by code_simp
  note inst = extract_json_value_contract[OF len]
  have quoted: "extract_json_value (pre @ key_colon ''k'' @ ws @ dquote # v @ dquote # rest) ''k''
                  = Some v"
    if "first_match (key_colon ''k'') pre (ws @ dquote # v @ dquote # rest)"
      and "list_all is_space ws" and "dquote \<notin> set v" for pre ws v rest
    using inst that by blast
  have bare: "extract_json_value (pre @ key_colon ''k'' @ ws @ tok @ rest) ''k'' = Some tok"
    if "first_match (key_colon ''k'') pre (ws @ tok @ rest)" and "list_all is_space ws"
      and "tok \<noteq> []" and "\<not> is_space (hd tok)" and "hd tok \<noteq> dquote"
      and "list_all (\<lambda>c. \<not> is_delim c) tok" and "rest = [] \<or> is_delim (hd rest)"
    for pre ws tok rest
    using inst that by blast
  have \<open>extract_json_value
      (''{"a":1,'' @ key_colon ''k'' @ '' '' @ dquote # ''v'' @ dquote # ''}'') ''k'' = Some ''v''\<close>
    by (rule quoted[OF f1]) (simp_all add: is_space_def dquote_def)
  hence e1: \<open>extract_json_value ''{"a":1,"k": "v"}'' ''k'' = Some ''v''\<close>
    by (simp add: key_colon_def dquote_def)
  have \<open>extract_json_value
      (''{"a":1,'' @ key_colon ''k'' @ [] @ ''42'' @ ''}'') ''k'' = Some ''42''\<close>
    by (rule bare[OF f2]) (simp_all add: is_space_def is_delim_def dquote_def)
  hence e2: \<open>extract_json_value ''{"a":1,"k":42}'' ''k'' = Some ''42''\<close>
    by (simp add: key_colon_def dquote_def)
  from inst f3 have e3: \<open>extract_json_value ''{"a":1}'' ''k'' = None\<close>
    by blast
  from len f1 e1 f2 e2 f3 e3 show ?thesis by blast
qed

section \<open>The request body of the job submission\<close>

lemma snprintf_at_written:
  "snprintf_at (written t) text =
     (if length t \<le> 8192 then Inr (written (t @ text)) else Inl Write_out_of_bounds)"
  by (auto simp: snprintf_at_def written_def Let_def nat_diff_distrib' min_def)

lemma and_then_simps [simp]:
  "and_then (Inl e) f = Inl e" "and_then (Inr v) f = f v"
  by (simp_all add: and_then_def)

lemma add_file_list_fits:
  "length (t @ file_entries fs) \<le> 8192 \<Longrightarrow>
     add_file_list fs (written t) = Inr (written (t @ file_entries fs))"
proof (induction fs arbitrary: t)
  case Nil
  then show ?case by simp
next
  case (Cons f fs)
  let ?e = "[dquote] @ f @ [dquote] @ (if fs \<noteq> [] then '','' else [])"
  from Cons.prems have "length t \<le> 8192" and "length ((t @ ?e) @ file_entries fs) \<le> 8192"
    by simp_all
  with Cons.IH[of "t @ ?e"] show ?case
    by (simp add: snprintf_at_written)
qed

lemma add_file_list_cases:
  "add_file_list fs (written t) = Inl Write_out_of_bounds
   \<or> add_file_list fs (written t) = Inr (written (t @ file_entries fs))"
proof (induction fs arbitrary: t)
  case Nil
  then show ?case by simp
next
  case (Cons f fs)
  let ?e = "[dquote] @ f @ [dquote] @ (if fs \<noteq> [] then '','' else [])"
  from Cons.IH[of "t @ ?e"] show ?case
    by (auto simp: snprintf_at_written)
qed

text \<open>
  What \<^verbatim>\<open>sp_start_backup\<close> hands to libcurl: the whole body while it has at most 8191
  characters, its first 8191 characters when it has 8192 or 8193, and a write outside
  the block for every longer body.
\<close>

lemma build_payload_cases:
  "build_payload session_id backup_name backup_path file_list =
     (if length (full_body session_id backup_name backup_path file_list) \<le> 8193
      then Inr (take 8191 (full_body session_id backup_name backup_path file_list))
      else Inl Write_out_of_bounds)"
proof -
  let ?h = "payload_head session_id backup_name backup_path"
  have start: "\<lparr>content = [], offset = 0\<rparr> = written []"
    by (simp add: written_def)
  show ?thesis
  proof (cases "\<exists>files. file_list = Some files \<and> length files > 0")
    case False
    hence "full_body session_id backup_name backup_path file_list = ?h @ ''}''"
      by (auto simp: full_body_def split: option.splits)
    moreover from False
    have "build_payload session_id backup_name backup_path file_list =
            and_then (snprintf_at (written []) ?h)
              (\<lambda>b1. and_then (snprintf_at b1 ''}'') (\<lambda>b5. Inr (content b5)))"
      by (cases file_list) (simp_all add: build_payload_def start)
    ultimately show ?thesis
      by (simp add: snprintf_at_written) (simp add: written_def)
  next
    case True
    then obtain files where fl: "file_list = Some files" and ne: "length files > 0"
      by blast
    let ?open = \<open>'',"fileList":[''\<close>
    let ?t3 = "?h @ ?open @ file_entries files"
    have full: "full_body session_id backup_name backup_path file_list = ?t3 @ '']'' @ ''}''"
      using fl ne by (simp add: full_body_def)
    have bp: "build_payload session_id backup_name backup_path file_list =
            and_then (snprintf_at (written []) ?h)
              (\<lambda>b1. and_then
                 (and_then (snprintf_at b1 ?open)
                    (\<lambda>b2. and_then (add_file_list files b2) (\<lambda>b3. snprintf_at b3 '']'')))
                 (\<lambda>b4. and_then (snprintf_at b4 ''}'') (\<lambda>b5. Inr (content b5))))"
      using fl ne by (simp add: build_payload_def start)
    show ?thesis
    proof (cases "length (?t3 @ '']'' @ ''}'') \<le> 8193")
      case True
      hence "length ((?h @ ?open) @ file_entries files) \<le> 8192" by simp
      from add_file_list_fits[OF this] True show ?thesis
        unfolding bp full by (simp add: snprintf_at_written) (simp add: written_def)
    next
      case False
      from add_file_list_cases[of files "?h @ ?open"] False show ?thesis
        unfolding bp full by (auto simp: snprintf_at_written)
    qed
  qed
qed

lemma length_file_entries:
  "length (file_entries fs) = (\<Sum>f\<leftarrow>fs. length f + 3) - (if fs = [] then 0 else 1)"
  by (induction fs) (auto simp: neq_Nil_conv)

section \<open>Outcomes, the response buffer and the product in \<^verbatim>\<open>int\<close>\<close>

lemma returned_simps [simp]:
  "returned (Inl (f, s)) = Inl f" "returned (Inr (v, s)) = Inr v"
  by (simp_all add: returned_def)

lemma world_simps [simp]:
  "world (Inl (f, s)) = s" "world (Inr (v, s)) = s"
  by (simp_all add: world_def)

lemma outcome_cases:
  obtains (stopped) f s where "r = Inl (f, s)" "returned r = Inl f" "world r = s"
  | (returns) v s where "r = Inr (v, s)" "returned r = Inr v" "world r = s"
proof (cases r)
  case (Inl a)
  thus ?thesis by (cases a) (simp add: stopped)
next
  case (Inr b)
  thus ?thesis by (cases b) (simp add: returns)
qed

lemma write_callback_fold:
  "fold write_callback blocks (Some d) = Some (d @ concat blocks)"
  by (induction blocks arbitrary: d) (simp_all add: write_callback_def)

lemma received_simps [simp]:
  "received [] = None" "received (b # bs) = Some (b @ concat bs)"
proof -
  show "received [] = None" by (simp add: received_def)
  have "write_callback b None = Some b" by (simp add: write_callback_def)
  thus "received (b # bs) = Some (b @ concat bs)"
    by (simp add: received_def write_callback_fold)
qed

lemma received_None_iff: "received blocks = None \<longleftrightarrow> blocks = []"
  by (cases blocks) simp_all

lemma int32_fits: "fits_int x \<Longrightarrow> int32 x = x"
  by (simp add: fits_int_def int32_def)

section \<open>The task poller\<close>

lemma emit_simps [simp]:
  "inits (emit es s) = inits s" "events (emit es s) = events s @ es"
  by (simp_all add: emit_def)

lemma enter_simps [simp]:
  "inits (enter a s) = Suc (inits s)" "events (enter a s) = events s @ [Invoke a]"
  by (simp_all add: enter_def)

lemma calls_simps [simp]:
  "calls a (emit es s) = calls a s + count_list es (Invoke a)"
  "calls a (enter b s) = calls a s + (if a = b then 1 else 0)"
  by (auto simp: calls_def)

lemma diagnostics_simps [simp]:
  "diagnostics (emit es s) = diagnostics s @ filter is_stderr es"
  "diagnostics (enter b s) = diagnostics s"
  by (simp_all add: diagnostics_def)

lemma requests_simps [simp]:
  "requests (emit es s) = requests s @ filter is_perform es"
  "requests (enter b s) = requests s"
  by (simp_all add: requests_def)

lemma status_returned:
  "returned (sp_get_task_status E config session_id task_id s)
     = observed E config session_id task_id (inits s)"
  by (simp add: observed_def sp_get_task_status_def Let_def
        split: curl_result.splits option.splits)

lemma status_world:
  "world (sp_get_task_status E config session_id task_id s)
     = (if curl_easy_init E (inits s) Task_status
        then emit [Perform Task_status (status_request config session_id task_id)]
               (enter Task_status s)
        else enter Task_status s)"
  by (simp add: sp_get_task_status_def Let_def split: curl_result.splits option.splits)

lemma status_effect [simp]:
  "inits (world (sp_get_task_status E config session_id task_id s)) = Suc (inits s)"
  "calls a (world (sp_get_task_status E config session_id task_id s))
     = calls a s + (if a = Task_status then 1 else 0)"
  "diagnostics (world (sp_get_task_status E config session_id task_id s)) = diagnostics s"
  by (simp_all add: status_world)

lemma status_cases:
  obtains (stopped) f s1 where
      "sp_get_task_status E config session_id task_id s = Inl (f, s1)"
      "observed E config session_id task_id (inits s) = Inl f"
  | (returns) st s1 where
      "sp_get_task_status E config session_id task_id s = Inr (st, s1)"
      "observed E config session_id task_id (inits s) = Inr st"
proof (cases rule: outcome_cases[of "sp_get_task_status E config session_id task_id s"])
  case (stopped f s1)
  from stopped(2) have "observed E config session_id task_id (inits s) = Inl f"
    unfolding status_returned .
  with stopped(1) show ?thesis by (rule that(1))
next
  case (returns st s1)
  from returns(2) have "observed E config session_id task_id (inits s) = Inr st"
    unfolding status_returned .
  with returns(1) show ?thesis by (rule that(2))
qed

lemma wait_return_success:
  assumes "i < max_attempts"
    and "observed E config session_id task_id (inits s) = Inr (Some ''Success'')"
  shows "sp_wait_loop E config session_id task_id max_attempts i s
           = Inr (1, emit [Stdout (check_mark @ '' Backup completed successfully\<newline>'') []]
                       (world (sp_get_task_status E config session_id task_id s)))"
proof (cases rule: status_cases[of E config session_id task_id s])
  case (stopped f s1)
  with assms show ?thesis by simp
next
  case (returns st s1)
  with assms show ?thesis by (subst sp_wait_loop.simps) simp
qed

lemma wait_return_failure:
  assumes "i < max_attempts"
    and "observed E config session_id task_id (inits s) = Inr (Some st)"
    and "st = ''Failed'' \<or> st = ''Error''"
  shows "sp_wait_loop E config session_id task_id max_attempts i s
           = Inr (0, emit [Stderr (cross_mark @ '' Backup failed with state: %s\<newline>'') [S st]]
                       (world (sp_get_task_status E config session_id task_id s)))"
proof (cases rule: status_cases[of E config session_id task_id s])
  case (stopped f s1)
  with assms show ?thesis by simp
next
  case (returns st' s1)
  with assms show ?thesis by (subst sp_wait_loop.simps) auto
qed

lemma wait_continue:
  assumes "i < max_attempts"
    and "observed E config session_id task_id (inits s) = Inr (Some st)"
    and "st \<noteq> ''Success''" and "st \<noteq> ''Failed''" and "st \<noteq> ''Error''"
  shows "sp_wait_loop E config session_id task_id max_attempts i s
           = sp_wait_loop E config session_id task_id max_attempts (i + 1)
               (emit [Sleep 5]
                  (if (st = ''Running'' \<or> st = ''Pending'') \<and> i mod 6 = 0
                   then emit [Stdout ''  Status: %s... (checking again in 5s)\<newline>'' [S st]]
                          (world (sp_get_task_status E config session_id task_id s))
                   else world (sp_get_task_status E config session_id task_id s)))"
proof (cases rule: status_cases[of E config session_id task_id s])
  case (stopped f s1)
  with assms show ?thesis by simp
next
  case (returns st' s1)
  with assms show ?thesis by (subst sp_wait_loop.simps) simp
qed

lemma wait_no_state:
  assumes "i < max_attempts"
    and "observed E config session_id task_id (inits s) = Inr None"
  shows "sp_wait_loop E config session_id task_id max_attempts i s
           = sp_wait_loop E config session_id task_id max_attempts (i + 1)
               (emit [Sleep 5] (world (sp_get_task_status E config session_id task_id s)))"
proof (cases rule: status_cases[of E config session_id task_id s])
  case (stopped f s1)
  with assms show ?thesis by simp
next
  case (returns st' s1)
  with assms show ?thesis by (subst sp_wait_loop.simps) simp
qed

lemma wait_stopped:
  assumes "i < max_attempts"
    and "observed E config session_id task_id (inits s) = Inl f"
  shows "sp_wait_loop E config session_id task_id max_attempts i s
           = Inl (f, world (sp_get_task_status E config session_id task_id s))"
proof (cases rule: status_cases[of E config session_id task_id s])
  case (stopped f' s1)
  with assms show ?thesis by (subst sp_wait_loop.simps) simp
next
  case (returns st' s1)
  with assms show ?thesis by simp
qed

lemma wait_exhausted:
  assumes "\<not> i < max_attempts"
  shows "sp_wait_loop E config session_id task_id max_attempts i s
           = Inr (0, emit [Stderr (cross_mark @ '' Timeout waiting for backup to complete\<newline>'')
                             []] s)"
  using assms by (subst sp_wait_loop.simps) simp

lemma goes_on_cases:
  assumes "goes_on ob"
  obtains "ob = Inr None"
  | st where "ob = Inr (Some st)" "st \<noteq> ''Success''" "st \<noteq> ''Failed''" "st \<noteq> ''Error''"
  using assms by (cases ob) (auto simp: goes_on_def is_terminal_def)

lemma ends_wait_cases:
  assumes "ends_wait ob"
  obtains "ob = Inr (Some ''Success'')"
  | st where "ob = Inr (Some st)" "st = ''Failed'' \<or> st = ''Error''"
  using assms by (cases ob) (auto simp: ends_wait_def is_terminal_def)

lemma observation_cases:
  obtains (goes_on) "goes_on ob" | (ends_wait) "ends_wait ob" | (stopped) f where "ob = Inl f"
  by (cases ob) (auto simp: goes_on_def ends_wait_def)

lemma ends_wait_not_goes_on: "ends_wait ob \<Longrightarrow> \<not> goes_on ob"
  by (cases ob) (simp_all add: goes_on_def ends_wait_def)

text \<open>One round of the loop on a query that lets the wait go on.\<close>

lemma wait_step:
  assumes "i < max_attempts"
    and "goes_on (observed E config session_id task_id (inits s))"
  shows "\<exists>s'. sp_wait_loop E config session_id task_id max_attempts i s
               = sp_wait_loop E config session_id task_id max_attempts (i + 1) s'
             \<and> inits s' = Suc (inits s)
             \<and> (\<forall>a. calls a s' = calls a s + (if a = Task_status then 1 else 0))
             \<and> diagnostics s' = diagnostics s"
  using assms(2)
proof (cases rule: goes_on_cases)
  case 1
  show ?thesis
    by (rule exI[of _ "emit [Sleep 5] (world (sp_get_task_status E config session_id task_id s))"])
       (simp add: wait_no_state[OF assms(1) 1])
next
  case (2 st)
  from wait_continue[OF assms(1) 2] show ?thesis
    by (intro exI conjI, assumption) simp_all
qed

text \<open>\<open>k\<close> rounds of the loop on queries that let the wait go on.\<close>

lemma wait_skip:
  assumes "i + int k \<le> max_attempts"
    and "\<forall>j<k. goes_on (observed E config session_id task_id (inits s + j))"
  shows "\<exists>s'. sp_wait_loop E config session_id task_id max_attempts i s
               = sp_wait_loop E config session_id task_id max_attempts (i + int k) s'
             \<and> inits s' = inits s + k
             \<and> (\<forall>a. calls a s' = calls a s + (if a = Task_status then k else 0))
             \<and> diagnostics s' = diagnostics s"
  using assms
proof (induction k arbitrary: i s)
  case 0
  show ?case by (rule exI[of _ s]) simp
next
  case (Suc k)
  from Suc.prems have lt: "i < max_attempts"
    and nt: "goes_on (observed E config session_id task_id (inits s))"
    by auto
  from wait_step[OF lt nt] obtain s1 where
    s1: "sp_wait_loop E config session_id task_id max_attempts i s
           = sp_wait_loop E config session_id task_id max_attempts (i + 1) s1"
    "inits s1 = Suc (inits s)"
    "\<forall>a. calls a s1 = calls a s + (if a = Task_status then 1 else 0)"
    "diagnostics s1 = diagnostics s"
    by blast
  have "(i + 1) + int k \<le> max_attempts" using Suc.prems(1) by simp
  moreover have "\<forall>j<k. goes_on (observed E config session_id task_id (inits s1 + j))"
    using Suc.prems(2) s1(2) by auto
  ultimately obtain s' where
    s': "sp_wait_loop E config session_id task_id max_attempts (i + 1) s1
           = sp_wait_loop E config session_id task_id max_attempts (i + 1 + int k) s'"
    "inits s' = inits s1 + k"
    "\<forall>a. calls a s' = calls a s1 + (if a = Task_status then k else 0)"
    "diagnostics s' = diagnostics s1"
    using Suc.IH[of "i + 1" s1] by blast
  show ?case
  proof (intro exI conjI)
    show "sp_wait_loop E config session_id task_id max_attempts i s
            = sp_wait_loop E config session_id task_id max_attempts (i + int (Suc k)) s'"
    proof -
      have "i + int (Suc k) = i + 1 + int k" by simp
      with s1(1) s'(1) show ?thesis by (simp only:)
    qed
    show "inits s' = inits s + Suc k" using s1(2) s'(2) by simp
    show "\<forall>a. calls a s' = calls a s + (if a = Task_status then Suc k else 0)"
      using s1(3) s'(3) by simp
    show "diagnostics s' = diagnostics s" using s1(4) s'(4) by simp
  qed
qed

text \<open>
  The ways \<^verbatim>\<open>sp_wait_for_task\<close> ends when \<^verbatim>\<open>max_minutes * 12\<close> fits an \<^verbatim>\<open>int\<close>. In each
  lemma \<open>k\<close> queries let the wait go on and the next one decides.
\<close>

lemma wait_for_task_loop:
  "fits_int (max_minutes * 12) \<Longrightarrow>
   sp_wait_for_task E config session_id task_id max_minutes s =
     sp_wait_loop E config session_id task_id (max_minutes * 12) 0
       (emit [Stdout ''\<newline>Waiting for backup to complete (max %d minutes)...\<newline>''
                [D max_minutes]] s)"
  by (simp add: sp_wait_for_task_def int32_fits)

lemma wait_reaches:
  assumes "fits_int (max_minutes * 12)"
    and "int k \<le> max_minutes * 12"
    and "\<forall>j<k. goes_on (observed E config session_id task_id (inits s + j))"
  shows "\<exists>s'. sp_wait_for_task E config session_id task_id max_minutes s
               = sp_wait_loop E config session_id task_id (max_minutes * 12) (int k) s'
             \<and> inits s' = inits s + k
             \<and> (\<forall>a. calls a s' = calls a s + (if a = Task_status then k else 0))
             \<and> diagnostics s' = diagnostics s"
proof -
  let ?s0 = "emit [Stdout ''\<newline>Waiting for backup to complete (max %d minutes)...\<newline>''
                     [D max_minutes]] s"
  have "0 + int k \<le> max_minutes * 12" using assms(2) by simp
  moreover have "\<forall>j<k. goes_on (observed E config session_id task_id (inits ?s0 + j))"
    using assms(3) by simp
  ultimately obtain s' where
    s': "sp_wait_loop E config session_id task_id (max_minutes * 12) 0 ?s0
           = sp_wait_loop E config session_id task_id (max_minutes * 12) (0 + int k) s'"
    "inits s' = inits ?s0 + k"
    "\<forall>a. calls a s' = calls a ?s0 + (if a = Task_status then k else 0)"
    "diagnostics s' = diagnostics ?s0"
    using wait_skip[of 0 k "max_minutes * 12" E config session_id task_id ?s0] by blast
  show ?thesis
  proof (intro exI conjI)
    show "sp_wait_for_task E config session_id task_id max_minutes s
            = sp_wait_loop E config session_id task_id (max_minutes * 12) (int k) s'"
      using s'(1) by (simp add: wait_for_task_loop[OF assms(1)])
    show "inits s' = inits s + k" using s'(2) by simp
    show "\<forall>a. calls a s' = calls a s + (if a = Task_status then k else 0)"
      using s'(3) by simp
    show "diagnostics s' = diagnostics s" using s'(4) by simp
  qed
qed

lemma wait_ends_success:
  assumes "fits_int (max_minutes * 12)"
    and "k < nat (max_minutes * 12)"
    and "first_terminal E config session_id task_id (inits s) k"
    and "observed E config session_id task_id (inits s + k) = Inr (Some ''Success'')"
  shows "returned (sp_wait_for_task E config session_id task_id max_minutes s) = Inr 1
       \<and> inits (world (sp_wait_for_task E config session_id task_id max_minutes s))
           = inits s + k + 1
       \<and> (\<forall>a. calls a (world (sp_wait_for_task E config session_id task_id max_minutes s))
                = calls a s + (if a = Task_status then k + 1 else 0))
       \<and> diagnostics (world (sp_wait_for_task E config session_id task_id max_minutes s))
           = diagnostics s"
proof -
  have "int k \<le> max_minutes * 12" using assms(2) by simp
  moreover have "\<forall>j<k. goes_on (observed E config session_id task_id (inits s + j))"
    using assms(3) by (simp add: first_terminal_def)
  ultimately obtain s' where
    s': "sp_wait_for_task E config session_id task_id max_minutes s
           = sp_wait_loop E config session_id task_id (max_minutes * 12) (int k) s'"
    "inits s' = inits s + k"
    "\<forall>a. calls a s' = calls a s + (if a = Task_status then k else 0)"
    "diagnostics s' = diagnostics s"
    using wait_reaches[OF assms(1), of k E config session_id task_id s] by blast
  have lt: "int k < max_minutes * 12" using assms(2) by simp
  have ob: "observed E config session_id task_id (inits s') = Inr (Some ''Success'')"
    using assms(4) s'(2) by simp
  show ?thesis
    unfolding s'(1) wait_return_success[OF lt ob]
    using s'(2,3,4) by simp
qed

lemma wait_ends_failure:
  assumes "fits_int (max_minutes * 12)"
    and "k < nat (max_minutes * 12)"
    and "first_terminal E config session_id task_id (inits s) k"
    and "observed E config session_id task_id (inits s + k) = Inr (Some st)"
    and "st = ''Failed'' \<or> st = ''Error''"
  shows "returned (sp_wait_for_task E config session_id task_id max_minutes s) = Inr 0
       \<and> inits (world (sp_wait_for_task E config session_id task_id max_minutes s))
           = inits s + k + 1
       \<and> (\<forall>a. calls a (world (sp_wait_for_task E config session_id task_id max_minutes s))
                = calls a s + (if a = Task_status then k + 1 else 0))
       \<and> diagnostics (world (sp_wait_for_task E config session_id task_id max_minutes s))
           = diagnostics s
               @ [Stderr (cross_mark @ '' Backup failed with state: %s\<newline>'') [S st]]"
proof -
  have "int k \<le> max_minutes * 12" using assms(2) by simp
  moreover have "\<forall>j<k. goes_on (observed E config session_id task_id (inits s + j))"
    using assms(3) by (simp add: first_terminal_def)
  ultimately obtain s' where
    s': "sp_wait_for_task E config session_id task_id max_minutes s
           = sp_wait_loop E config session_id task_id (max_minutes * 12) (int k) s'"
    "inits s' = inits s + k"
    "\<forall>a. calls a s' = calls a s + (if a = Task_status then k else 0)"
    "diagnostics s' = diagnostics s"
    using wait_reaches[OF assms(1), of k E config session_id task_id s] by blast
  have lt: "int k < max_minutes * 12" using assms(2) by simp
  have ob: "observed E config session_id task_id (inits s') = Inr (Some st)"
    using assms(4) s'(2) by simp
  show ?thesis
    unfolding s'(1) wait_return_failure[OF lt ob assms(5)]
    using s'(2,3,4) by simp
qed

lemma wait_ends_stopped:
  assumes "fits_int (max_minutes * 12)"
    and "k < nat (max_minutes * 12)"
    and "\<forall>j<k. goes_on (observed E config session_id task_id (inits s + j))"
    and "observed E config session_id task_id (inits s + k) = Inl f"
  shows "returned (sp_wait_for_task E config session_id task_id max_minutes s) = Inl f
       \<and> inits (world (sp_wait_for_task E config session_id task_id max_minutes s))
           = inits s + k + 1
       \<and> (\<forall>a. calls a (world (sp_wait_for_task E config session_id task_id max_minutes s))
                = calls a s + (if a = Task_status then k + 1 else 0))
       \<and> diagnostics (world (sp_wait_for_task E config session_id task_id max_minutes s))
           = diagnostics s"
proof -
  have "int k \<le> max_minutes * 12" using assms(2) by simp
  then obtain s' where
    s': "sp_wait_for_task E config session_id task_id max_minutes s
           = sp_wait_loop E config session_id task_id (max_minutes * 12) (int k) s'"
    "inits s' = inits s + k"
    "\<forall>a. calls a s' = calls a s + (if a = Task_status then k else 0)"
    "diagnostics s' = diagnostics s"
    using assms(3) wait_reaches[OF assms(1), of k E config session_id task_id s] by blast
  have lt: "int k < max_minutes * 12" using assms(2) by simp
  have ob: "observed E config session_id task_id (inits s') = Inl f"
    using assms(4) s'(2) by simp
  show ?thesis
    unfolding s'(1) wait_stopped[OF lt ob]
    using s'(2,3,4) by simp
qed

lemma wait_ends_timeout:
  assumes "fits_int (max_minutes * 12)"
    and "\<forall>j<nat (max_minutes * 12).
             goes_on (observed E config session_id task_id (inits s + j))"
  shows "returned (sp_wait_for_task E config session_id task_id max_minutes s) = Inr 0
       \<and> inits (world (sp_wait_for_task E config session_id task_id max_minutes s))
           = inits s + nat (max_minutes * 12)
       \<and> (\<forall>a. calls a (world (sp_wait_for_task E config session_id task_id max_minutes s))
                = calls a s + (if a = Task_status then nat (max_minutes * 12) else 0))
       \<and> diagnostics (world (sp_wait_for_task E config session_id task_id max_minutes s))
           = diagnostics s
               @ [Stderr (cross_mark @ '' Timeout waiting for backup to complete\<newline>'') []]"
proof -
  let ?n = "nat (max_minutes * 12)"
  have "int ?n \<le> max_minutes * 12 \<or> max_minutes * 12 < 0" by auto
  hence "\<exists>s'. sp_wait_for_task E config session_id task_id max_minutes s
               = sp_wait_loop E config session_id task_id (max_minutes * 12) (int ?n) s'
             \<and> inits s' = inits s + ?n
             \<and> (\<forall>a. calls a s' = calls a s + (if a = Task_status then ?n else 0))
             \<and> diagnostics s' = diagnostics s"
  proof
    assume "int ?n \<le> max_minutes * 12"
    from wait_reaches[OF assms(1) this assms(2)] show ?thesis .
  next
    assume "max_minutes * 12 < 0"
    hence n0: "?n = 0" by simp
    show ?thesis
      unfolding n0
      by (rule exI[of _ "emit [Stdout ''\<newline>Waiting for backup to complete (max %d minutes)...\<newline>''
                                  [D max_minutes]] s"])
         (simp add: wait_for_task_loop[OF assms(1)])
  qed
  then obtain s' where
    s': "sp_wait_for_task E config session_id task_id max_minutes s
           = sp_wait_loop E config session_id task_id (max_minutes * 12) (int ?n) s'"
    "inits s' = inits s + ?n"
    "\<forall>a. calls a s' = calls a s + (if a = Task_status then ?n else 0)"
    "diagnostics s' = diagnostics s"
    by blast
  have ge: "\<not> int ?n < max_minutes * 12" by simp
  show ?thesis
    unfolding s'(1) wait_exhausted[OF ge]
    using s'(2,3,4) by simp
qed

lemma first_decisive:
  assumes "\<exists>j<n. \<not> goes_on (observed E config session_id task_id (n0 + j))"
  obtains k where "k < n"
    "\<not> goes_on (observed E config session_id task_id (n0 + k))"
    "\<forall>j<k. goes_on (observed E config session_id task_id (n0 + j))"
proof -
  let ?P = "\<lambda>j. \<not> goes_on (observed E config session_id task_id (n0 + j))"
  from assms obtain j where j: "j < n" "?P j" by blast
  have "?P (LEAST j. ?P j)" using j(2) by (rule LeastI)
  moreover have "\<forall>i<(LEAST j. ?P j). \<not> ?P i" using not_less_Least by blast
  moreover have "(LEAST j. ?P j) \<le> j" using j(2) by (rule Least_le)
  ultimately show ?thesis
    using j(1) that[of "LEAST j. ?P j"] by auto
qed

lemma first_terminal_unique:
  "first_terminal E config session_id task_id n0 k \<Longrightarrow>
   first_terminal E config session_id task_id n0 k' \<Longrightarrow> k = k'"
  unfolding first_terminal_def using ends_wait_not_goes_on by (meson linorder_neqE_nat)

lemma wait_four_ways:
  obtains
    (success) k where "k < nat (max_minutes * 12)"
      "first_terminal E config session_id task_id n0 k"
      "observed E config session_id task_id (n0 + k) = Inr (Some ''Success'')"
  | (failure) k st where "k < nat (max_minutes * 12)"
      "first_terminal E config session_id task_id n0 k"
      "observed E config session_id task_id (n0 + k) = Inr (Some st)"
      "st = ''Failed'' \<or> st = ''Error''"
  | (stopped) k f where "k < nat (max_minutes * 12)"
      "\<forall>j<k. goes_on (observed E config session_id task_id (n0 + j))"
      "observed E config session_id task_id (n0 + k) = Inl f"
  | (timeout) "\<forall>j<nat (max_minutes * 12).
                 goes_on (observed E config session_id task_id (n0 + j))"
proof (cases "\<exists>j<nat (max_minutes * 12).
                \<not> goes_on (observed E config session_id task_id (n0 + j))")
  case True
  then obtain k where k: "k < nat (max_minutes * 12)"
    "\<not> goes_on (observed E config session_id task_id (n0 + k))"
    "\<forall>j<k. goes_on (observed E config session_id task_id (n0 + j))"
    by (rule first_decisive)
  show ?thesis
  proof (cases rule: observation_cases[of "observed E config session_id task_id (n0 + k)"])
    case goes_on
    with k(2) show ?thesis by simp
  next
    case ends_wait
    hence ft: "first_terminal E config session_id task_id n0 k"
      using k(3) by (simp add: first_terminal_def)
    from ends_wait show ?thesis
    proof (cases rule: ends_wait_cases)
      case 1
      with k(1) ft show ?thesis by (rule success)
    next
      case (2 st)
      with k(1) ft show ?thesis by (rule failure)
    qed
  next
    case (stopped f)
    with k(1,3) show ?thesis by (rule that(3))
  qed
next
  case False
  hence "\<forall>j<nat (max_minutes * 12). goes_on (observed E config session_id task_id (n0 + j))"
    by blast
  thus ?thesis by (rule timeout)
qed

lemma no_terminal_after_stop:
  assumes "\<forall>j<k. goes_on (observed E config session_id task_id (n0 + j))"
    and "observed E config session_id task_id (n0 + k) = Inl f"
  shows "\<not> first_terminal E config session_id task_id n0 k'"
proof
  assume ft: "first_terminal E config session_id task_id n0 k'"
  consider "k' < k" | "k' = k" | "k < k'" by linarith
  thus False
  proof cases
    case 1
    with assms(1) ft show False
      by (auto simp: first_terminal_def dest: ends_wait_not_goes_on)
  next
    case 2
    with assms(2) ft show False by (simp add: first_terminal_def ends_wait_def)
  next
    case 3
    with ft have "goes_on (observed E config session_id task_id (n0 + k))"
      by (simp add: first_terminal_def)
    with assms(2) show False by (simp add: goes_on_def)
  qed
qed

lemma no_terminal_within:
  assumes "\<forall>j<n. goes_on (observed E config session_id task_id (n0 + j))"
    and "k' < n"
  shows "\<not> first_terminal E config session_id task_id n0 k'"
  using assms by (auto simp: first_terminal_def dest: ends_wait_not_goes_on)

lemma on_handle_simps [simp]:
  "inits (on_handle n) = n" "events (on_handle n) = []"
  "calls a (on_handle n) = 0" "diagnostics (on_handle n) = []"
  by (simp_all add: on_handle_def calls_def diagnostics_def)

lemma start_state_simps [simp]:
  "inits start_state = 0" "events start_state = []"
  "calls a start_state = 0" "diagnostics start_state = []"
  by (simp_all add: start_state_def calls_def diagnostics_def)

lemma observed_scripted:
  "observed (scripted_env script) config session_id task_id n =
     (case script n of
        CURLE_OK code blocks \<Rightarrow>
          (case received blocks of
             None \<Rightarrow> Inl Uninitialised_read
           | Some data \<Rightarrow> Inr (extract_json_value data ''taskState''))
      | CURLE_FAILED e \<Rightarrow> Inr None)"
  by (simp add: observed_def sp_get_task_status_def scripted_env_def Let_def
        split: curl_result.splits option.splits)

lemma status_body_state [simp]:
  "extract_json_value (status_body ''Running'') ''taskState'' = Some ''Running''"
  "extract_json_value (status_body ''Failed'') ''taskState'' = Some ''Failed''"
  "extract_json_value (status_body ''Success'') ''taskState'' = Some ''Success''"
  by (simp_all add: status_body_def decoder_defs)

lemma observation_simps [simp]:
  "goes_on (Inr None)" "goes_on (Inr (Some ''Running''))" "\<not> goes_on (Inl f)"
  "\<not> goes_on (Inr (Some ''Success''))" "\<not> goes_on (Inr (Some ''Failed''))"
  "ends_wait (Inr (Some ''Success''))" "ends_wait (Inr (Some ''Failed''))"
  "\<not> ends_wait (Inr None)" "\<not> ends_wait (Inl f)"
  by (simp_all add: goes_on_def ends_wait_def is_terminal_def)

text \<open>
  C1. When a status query of the wait reports a task state: on \<open>Success\<close> the wait
  returns 1 at once, on \<open>Failed\<close> or \<open>Error\<close> it returns 0 at once with the failure
  diagnostic, and on any other string (\<open>Pending\<close>, \<open>Running\<close>, anything unrecognised) it
  does not return but sleeps and goes on with the next attempt. Hence a wait whose
  number of attempts \<open>max_minutes * 12\<close> fits an \<^verbatim>\<open>int\<close> returns 1 exactly when the first
  terminal state reported within its attempts is \<open>Success\<close>, and writes the failure
  diagnostic exactly when that state is \<open>Failed\<close> or \<open>Error\<close>.
\<close>

theorem wait_classifies_task_state:
  "i < max_attempts \<Longrightarrow>
   observed E config session_id task_id (inits s) = Inr (Some st) \<Longrightarrow>
   fits_int (max_minutes * 12) \<Longrightarrow>
     (st = ''Success'' \<longrightarrow>
        sp_wait_loop E config session_id task_id max_attempts i s
          = Inr (1, emit [Stdout (check_mark @ '' Backup completed successfully\<newline>'') []]
                      (world (sp_get_task_status E config session_id task_id s))))
   \<and> (st = ''Failed'' \<or> st = ''Error'' \<longrightarrow>
        sp_wait_loop E config session_id task_id max_attempts i s
          = Inr (0, emit [Stderr (cross_mark @ '' Backup failed with state: %s\<newline>'') [S st]]
                      (world (sp_get_task_status E config session_id task_id s))))
   \<and> (st \<noteq> ''Success'' \<and> st \<noteq> ''Failed'' \<and> st \<noteq> ''Error'' \<longrightarrow>
        sp_wait_loop E config session_id task_id max_attempts i s
          = sp_wait_loop E config session_id task_id max_attempts (i + 1)
              (emit [Sleep 5]
                 (if (st = ''Running'' \<or> st = ''Pending'') \<and> i mod 6 = 0
                  then emit [Stdout ''  Status: %s... (checking again in 5s)\<newline>'' [S st]]
                         (world (sp_get_task_status E config session_id task_id s))
                  else world (sp_get_task_status E config session_id task_id s))))
   \<and> (returned (sp_wait_for_task E config session_id task_id max_minutes s0) = Inr 1
        \<longleftrightarrow> (\<exists>k<nat (max_minutes * 12).
               first_terminal E config session_id task_id (inits s0) k
               \<and> observed E config session_id task_id (inits s0 + k) = Inr (Some ''Success'')))
   \<and> ((\<exists>st'. diagnostics (world (sp_wait_for_task E config session_id task_id max_minutes s0))
               = diagnostics s0
                   @ [Stderr (cross_mark @ '' Backup failed with state: %s\<newline>'') [S st']])
        \<longleftrightarrow> (\<exists>k<nat (max_minutes * 12).
               first_terminal E config session_id task_id (inits s0) k
               \<and> (observed E config session_id task_id (inits s0 + k) = Inr (Some ''Failed'')
                  \<or> observed E config session_id task_id (inits s0 + k)
                       = Inr (Some ''Error''))))"
proof (intro conjI impI)
  assume "i < max_attempts" "observed E config session_id task_id (inits s) = Inr (Some st)"
    "st = ''Success''"
  thus "sp_wait_loop E config session_id task_id max_attempts i s
          = Inr (1, emit [Stdout (check_mark @ '' Backup completed successfully\<newline>'') []]
                      (world (sp_get_task_status E config session_id task_id s)))"
    by (simp add: wait_return_success)
next
  assume "i < max_attempts" "observed E config session_id task_id (inits s) = Inr (Some st)"
    "st = ''Failed'' \<or> st = ''Error''"
  thus "sp_wait_loop E config session_id task_id max_attempts i s
          = Inr (0, emit [Stderr (cross_mark @ '' Backup failed with state: %s\<newline>'') [S st]]
                      (world (sp_get_task_status E config session_id task_id s)))"
    by (rule wait_return_failure)
next
  assume "i < max_attempts" "observed E config session_id task_id (inits s) = Inr (Some st)"
    "st \<noteq> ''Success'' \<and> st \<noteq> ''Failed'' \<and> st \<noteq> ''Error''"
  thus "sp_wait_loop E config session_id task_id max_attempts i s
          = sp_wait_loop E config session_id task_id max_attempts (i + 1)
              (emit [Sleep 5]
                 (if (st = ''Running'' \<or> st = ''Pending'') \<and> i mod 6 = 0
                  then emit [Stdout ''  Status: %s... (checking again in 5s)\<newline>'' [S st]]
                         (world (sp_get_task_status E config session_id task_id s))
                  else world (sp_get_task_status E config session_id task_id s)))"
    by (intro wait_continue) simp_all
next
  assume fits: "fits_int (max_minutes * 12)"
  let ?w = "sp_wait_for_task E config session_id task_id max_minutes s0"
  let ?won = "\<exists>k<nat (max_minutes * 12).
               first_terminal E config session_id task_id (inits s0) k
               \<and> observed E config session_id task_id (inits s0 + k) = Inr (Some ''Success'')"
  let ?lost = "\<exists>k<nat (max_minutes * 12).
               first_terminal E config session_id task_id (inits s0) k
               \<and> (observed E config session_id task_id (inits s0 + k) = Inr (Some ''Failed'')
                  \<or> observed E config session_id task_id (inits s0 + k) = Inr (Some ''Error''))"
  show "returned ?w = Inr 1 \<longleftrightarrow> ?won"
  proof (cases rule: wait_four_ways[of max_minutes E config session_id task_id "inits s0"])
    case (success k)
    with wait_ends_success[OF fits success] show ?thesis by auto
  next
    case (failure k st')
    have "\<not> ?won"
    proof
      assume ?won
      then obtain k' where "first_terminal E config session_id task_id (inits s0) k'"
        "observed E config session_id task_id (inits s0 + k') = Inr (Some ''Success'')"
        by blast
      with failure first_terminal_unique[of E config session_id task_id "inits s0" k k']
      show False by auto
    qed
    with wait_ends_failure[OF fits failure] show ?thesis by simp
  next
    case (stopped k f)
    from no_terminal_after_stop[OF stopped(2,3)] have "\<not> ?won" by blast
    with wait_ends_stopped[OF fits stopped] show ?thesis by simp
  next
    case timeout
    from no_terminal_within[OF timeout] have "\<not> ?won" by blast
    with wait_ends_timeout[OF fits timeout] show ?thesis by simp
  qed
  show "(\<exists>st'. diagnostics (world ?w)
               = diagnostics s0
                   @ [Stderr (cross_mark @ '' Backup failed with state: %s\<newline>'') [S st']])
        \<longleftrightarrow> ?lost"
  proof (cases rule: wait_four_ways[of max_minutes E config session_id task_id "inits s0"])
    case (success k)
    have "\<not> ?lost"
    proof
      assume ?lost
      then obtain k' where "first_terminal E config session_id task_id (inits s0) k'"
        "observed E config session_id task_id (inits s0 + k') = Inr (Some ''Failed'')
           \<or> observed E config session_id task_id (inits s0 + k') = Inr (Some ''Error'')"
        by blast
      with success first_terminal_unique[of E config session_id task_id "inits s0" k k']
      show False by auto
    qed
    with wait_ends_success[OF fits success] show ?thesis by simp
  next
    case (failure k st')
    with wait_ends_failure[OF fits failure] show ?thesis by auto
  next
    case (stopped k f)
    from no_terminal_after_stop[OF stopped(2,3)] have "\<not> ?lost" by blast
    with wait_ends_stopped[OF fits stopped] show ?thesis by simp
  next
    case timeout
    from no_terminal_within[OF timeout] have "\<not> ?lost" by blast
    with wait_ends_timeout[OF fits timeout] show ?thesis by (simp add: cross_mark_def)
  qed
qed

theorem wait_classifies_task_state_witness:
  "(0::int) < 120
   \<and> observed flaky_env test_config ''S1'' ''T1'' (inits (on_handle 5)) = Inr (Some ''Success'')
   \<and> fits_int (10 * 12)
   \<and> returned (sp_wait_loop flaky_env test_config ''S1'' ''T1'' 120 0 (on_handle 5)) = Inr 1
   \<and> observed failing_env test_config ''S1'' ''T1'' (inits start_state) = Inr (Some ''Failed'')
   \<and> returned (sp_wait_loop failing_env test_config ''S1'' ''T1'' 120 0 start_state) = Inr 0
   \<and> observed stalled_env test_config ''S1'' ''T1'' (inits start_state) = Inr (Some ''Running'')
   \<and> sp_wait_loop stalled_env test_config ''S1'' ''T1'' 120 0 start_state
       = sp_wait_loop stalled_env test_config ''S1'' ''T1'' 120 1
           \<lparr>inits = 1,
            events = [Invoke Task_status,
                      Perform Task_status (status_request test_config ''S1'' ''T1''),
                      Stdout ''  Status: %s... (checking again in 5s)\<newline>'' [S ''Running''],
                      Sleep 5]\<rparr>
   \<and> first_terminal flaky_env test_config ''S1'' ''T1'' (inits (on_handle 2)) 3
   \<and> returned (sp_wait_for_task flaky_env test_config ''S1'' ''T1'' 10 (on_handle 2)) = Inr 1
   \<and> returned (sp_wait_for_task failing_env test_config ''S1'' ''T1'' 10 start_state) \<noteq> Inr 1"
proof -
  have lt: "(0::int) < 120" by simp
  have fits: "fits_int (10 * 12)" by (simp add: fits_int_def)
  have o1: "observed flaky_env test_config ''S1'' ''T1'' (inits (on_handle 5))
              = Inr (Some ''Success'')"
    by (simp add: observed_scripted flaky_env_def)
  have o2: "observed failing_env test_config ''S1'' ''T1'' (inits start_state)
              = Inr (Some ''Failed'')"
    by (simp add: observed_scripted failing_env_def)
  have o3: "observed stalled_env test_config ''S1'' ''T1'' (inits start_state)
              = Inr (Some ''Running'')"
    by (simp add: observed_scripted stalled_env_def)
  have ft: "first_terminal flaky_env test_config ''S1'' ''T1'' (inits (on_handle 2)) 3"
    by (simp add: first_terminal_def observed_scripted flaky_env_def
          less_Suc_eq numeral_3_eq_3)
  have o4: "observed flaky_env test_config ''S1'' ''T1'' (inits (on_handle 2) + 3)
              = Inr (Some ''Success'')"
    by (simp add: observed_scripted flaky_env_def)
  note won = wait_classifies_task_state[OF lt o1 fits, of "on_handle 2"]
  from won have r1: "returned (sp_wait_loop flaky_env test_config ''S1'' ''T1'' 120 0
                   (on_handle 5)) = Inr 1"
    by simp
  from won ft o4
  have r4: "returned (sp_wait_for_task flaky_env test_config ''S1'' ''T1'' 10 (on_handle 2))
              = Inr 1"
    by (auto intro!: exI[of _ 3])
  note lost = wait_classifies_task_state[OF lt o2 fits, of start_state]
  from lost have r2: "returned (sp_wait_loop failing_env test_config ''S1'' ''T1'' 120 0
                   start_state) = Inr 0"
    by simp
  have ft0: "first_terminal failing_env test_config ''S1'' ''T1'' (inits start_state) 0"
    by (simp add: first_terminal_def observed_scripted failing_env_def)
  have "\<not> (\<exists>k<nat (10 * 12).
            first_terminal failing_env test_config ''S1'' ''T1'' (inits start_state) k
            \<and> observed failing_env test_config ''S1'' ''T1'' (inits start_state + k)
                = Inr (Some ''Success''))"
  proof
    assume "\<exists>k<nat (10 * 12).
            first_terminal failing_env test_config ''S1'' ''T1'' (inits start_state) k
            \<and> observed failing_env test_config ''S1'' ''T1'' (inits start_state + k)
                = Inr (Some ''Success'')"
    then obtain k where
      "first_terminal failing_env test_config ''S1'' ''T1'' (inits start_state) k"
      "observed failing_env test_config ''S1'' ''T1'' (inits start_state + k)
         = Inr (Some ''Success'')"
      by blast
    with first_terminal_unique[OF ft0, of k] o2 show False by simp
  qed
  with lost
  have r5: "returned (sp_wait_for_task failing_env test_config ''S1'' ''T1'' 10 start_state)
              \<noteq> Inr 1"
    by blast
  from wait_classifies_task_state[OF lt o3 fits, of start_state]
  have r3: "sp_wait_loop stalled_env test_config ''S1'' ''T1'' 120 0 start_state
       = sp_wait_loop stalled_env test_config ''S1'' ''T1'' 120 1
           \<lparr>inits = 1,
            events = [Invoke Task_status,
                      Perform Task_status (status_request test_config ''S1'' ''T1''),
                      Stdout ''  Status: %s... (checking again in 5s)\<newline>'' [S ''Running''],
                      Sleep 5]\<rparr>"
    by (simp add: status_world start_state_def stalled_env_def scripted_env_def
          emit_def enter_def)
  from lt fits o1 r1 o2 r2 o3 r3 ft r4 r5 show ?thesis by blast
qed

text \<open>
  C2, as the claim states it, fails: the wait has no timeout result of its own. A wait
  of one minute against a server that always reports \<open>Running\<close> makes its twelve
  queries and returns 0, the very value it returns against a server that reports
  \<open>Failed\<close>; only the line written to standard error differs.
\<close>

theorem timeout_result_is_failure_result_counterexample:
  "returned (sp_wait_for_task stalled_env test_config ''S1'' ''T1'' 1 start_state) = Inr 0
   \<and> returned (sp_wait_for_task failing_env test_config ''S1'' ''T1'' 1 start_state) = Inr 0
   \<and> calls Task_status
        (world (sp_wait_for_task stalled_env test_config ''S1'' ''T1'' 1 start_state)) = 12
   \<and> diagnostics (world (sp_wait_for_task stalled_env test_config ''S1'' ''T1'' 1 start_state))
     = [Stderr (cross_mark @ '' Timeout waiting for backup to complete\<newline>'') []]
   \<and> diagnostics (world (sp_wait_for_task failing_env test_config ''S1'' ''T1'' 1 start_state))
     = [Stderr (cross_mark @ '' Backup failed with state: %s\<newline>'') [S ''Failed'']]"
proof -
  have fits: "fits_int (1 * 12)" by (simp add: fits_int_def)
  have "\<forall>j<nat (1 * 12). goes_on
          (observed stalled_env test_config ''S1'' ''T1'' (inits start_state + j))"
    by (simp add: observed_scripted stalled_env_def)
  note t = wait_ends_timeout[OF fits this]
  have "first_terminal failing_env test_config ''S1'' ''T1'' (inits start_state) 0"
    by (simp add: first_terminal_def observed_scripted failing_env_def)
  moreover have "(0::nat) < nat (1 * 12)" by simp
  moreover have "observed failing_env test_config ''S1'' ''T1'' (inits start_state + 0)
                   = Inr (Some ''Failed'')"
    by (simp add: observed_scripted failing_env_def)
  ultimately have f:
    "returned (sp_wait_for_task failing_env test_config ''S1'' ''T1'' 1 start_state) = Inr 0
     \<and> diagnostics (world (sp_wait_for_task failing_env test_config ''S1'' ''T1'' 1
                              start_state))
         = diagnostics start_state
             @ [Stderr (cross_mark @ '' Backup failed with state: %s\<newline>'') [S ''Failed'']]"
    using wait_ends_failure[OF fits, of 0 failing_env test_config "''S1''" "''T1''" start_state
                               "''Failed''"]
    by simp
  from t f show ?thesis
    by simp
qed

text \<open>
  C2, amended. A wait whose number of attempts \<open>max_minutes * 12\<close> fits an \<^verbatim>\<open>int\<close> makes
  at most that many status queries, which is the maximal duration of \<open>max_minutes * 60\<close>
  seconds divided by the interval of 5 seconds; the bound is fixed before the first
  query. When every one of these queries has been made and none reported a terminal
  state, the wait writes the timeout diagnostic (and no failure diagnostic) to standard
  error and returns 0: never the value 1 of success, but the same value 0 that a
  terminal failure returns.
\<close>

theorem wait_attempts_bounded_then_timeout:
  "fits_int (max_minutes * 12) \<Longrightarrow>
     calls Task_status (world (sp_wait_for_task E config session_id task_id max_minutes s))
       \<le> calls Task_status s + nat ((max_minutes * 60) div 5)
   \<and> ((\<forall>j<nat (max_minutes * 12).
          goes_on (observed E config session_id task_id (inits s + j)))
      \<longrightarrow> returned (sp_wait_for_task E config session_id task_id max_minutes s) = Inr 0
        \<and> returned (sp_wait_for_task E config session_id task_id max_minutes s) \<noteq> Inr 1
        \<and> calls Task_status
             (world (sp_wait_for_task E config session_id task_id max_minutes s))
            = calls Task_status s + nat (max_minutes * 12)
        \<and> diagnostics (world (sp_wait_for_task E config session_id task_id max_minutes s))
            = diagnostics s
                @ [Stderr (cross_mark @ '' Timeout waiting for backup to complete\<newline>'') []])"
proof (intro conjI impI)
  assume fits: "fits_int (max_minutes * 12)"
  let ?w = "sp_wait_for_task E config session_id task_id max_minutes s"
  have eq: "nat ((max_minutes * 60) div 5) = nat (max_minutes * 12)" by simp
  have "calls Task_status (world ?w) \<le> calls Task_status s + nat (max_minutes * 12)"
  proof (cases rule: wait_four_ways[of max_minutes E config session_id task_id "inits s"])
    case (success k)
    with wait_ends_success[OF fits success] show ?thesis by simp
  next
    case (failure k st)
    with wait_ends_failure[OF fits failure] show ?thesis by simp
  next
    case (stopped k f)
    with wait_ends_stopped[OF fits stopped] show ?thesis by simp
  next
    case timeout
    with wait_ends_timeout[OF fits timeout] show ?thesis by simp
  qed
  thus "calls Task_status (world ?w) \<le> calls Task_status s + nat ((max_minutes * 60) div 5)"
    by (simp only: eq)
  assume a: "\<forall>j<nat (max_minutes * 12).
          goes_on (observed E config session_id task_id (inits s + j))"
  note t = wait_ends_timeout[OF fits a]
  from t show "returned ?w = Inr 0" by simp
  from t show "returned ?w \<noteq> Inr 1" by simp
  from t show "calls Task_status (world ?w) = calls Task_status s + nat (max_minutes * 12)"
    by simp
  from t show "diagnostics (world ?w)
            = diagnostics s
                @ [Stderr (cross_mark @ '' Timeout waiting for backup to complete\<newline>'') []]"
    by simp
qed

theorem wait_attempts_bounded_then_timeout_witness:
  "fits_int (1 * 12)
   \<and> list_all (\<lambda>j. goes_on
       (observed stalled_env test_config ''S1'' ''T1'' (inits start_state + j))) [0..<nat (1 * 12)]
   \<and> returned (sp_wait_for_task stalled_env test_config ''S1'' ''T1'' 1 start_state) = Inr 0
   \<and> calls Task_status
        (world (sp_wait_for_task stalled_env test_config ''S1'' ''T1'' 1 start_state)) = 12
   \<and> calls Task_status
        (world (sp_wait_for_task failing_env test_config ''S1'' ''T1'' 1 start_state)) \<le> 12
   \<and> calls Task_status
        (world (sp_wait_for_task empty_status_env test_config ''S1'' ''T1'' 1 (on_handle 2)))
       \<le> 12"
proof -
  have fits: "fits_int (1 * 12)" by (simp add: fits_int_def)
  have h: "\<forall>j<nat (1 * 12). goes_on
          (observed stalled_env test_config ''S1'' ''T1'' (inits start_state + j))"
    by (simp add: observed_scripted stalled_env_def)
  from wait_attempts_bounded_then_timeout[OF fits, of stalled_env test_config "''S1''" "''T1''"
         start_state] h
  have "returned (sp_wait_for_task stalled_env test_config ''S1'' ''T1'' 1 start_state) = Inr 0
     \<and> calls Task_status
          (world (sp_wait_for_task stalled_env test_config ''S1'' ''T1'' 1 start_state)) = 12"
    by simp
  moreover
  from wait_attempts_bounded_then_timeout[OF fits, of failing_env test_config "''S1''" "''T1''"
         start_state]
  have "calls Task_status
          (world (sp_wait_for_task failing_env test_config ''S1'' ''T1'' 1 start_state)) \<le> 12"
    by simp
  moreover
  from wait_attempts_bounded_then_timeout[OF fits, of empty_status_env test_config "''S1''"
         "''T1''" "on_handle 2"]
  have "calls Task_status
          (world (sp_wait_for_task empty_status_env test_config ''S1'' ''T1'' 1 (on_handle 2)))
          \<le> 12"
    by simp
  moreover from h have "list_all (\<lambda>j. goes_on
       (observed stalled_env test_config ''S1'' ''T1'' (inits start_state + j))) [0..<nat (1 * 12)]"
    by (simp add: list_all_iff)
  ultimately show ?thesis using fits by blast
qed

text \<open>
  A status query that yields no state because the transport failed (no handle, or
  \<^verbatim>\<open>curl_easy_perform\<close> reporting an error) does not end the wait: the loop sleeps and
  makes the next attempt.
\<close>

lemma transport_failure_goes_on:
  assumes "i < max_attempts"
    and "\<not> curl_easy_init E (inits s) Task_status
     \<or> (\<exists>e. curl_easy_perform E (inits s) Task_status
               (status_request config session_id task_id) = CURLE_FAILED e)"
  shows "returned (sp_get_task_status E config session_id task_id s) = Inr None"
    and "sp_wait_loop E config session_id task_id max_attempts i s
       = sp_wait_loop E config session_id task_id max_attempts (i + 1)
           (emit [Sleep 5] (world (sp_get_task_status E config session_id task_id s)))"
proof -
  from assms(2) show none: "returned (sp_get_task_status E config session_id task_id s) = Inr None"
    by (auto simp: sp_get_task_status_def Let_def)
  hence "observed E config session_id task_id (inits s) = Inr None"
    by (simp add: status_returned)
  with assms(1) show "sp_wait_loop E config session_id task_id max_attempts i s
       = sp_wait_loop E config session_id task_id max_attempts (i + 1)
           (emit [Sleep 5] (world (sp_get_task_status E config session_id task_id s)))"
    by (rule wait_no_state)
qed

text \<open>
  Where \<^verbatim>\<open>max_minutes * 12\<close> does not fit an \<^verbatim>\<open>int\<close>: for 178956971 minutes the product
  wraps to a negative number, and the wait returns 0 without a single query.
\<close>

lemma wait_178956971_minutes:
  "int32 (178956971 * 12) = - 2147483644"
  "returned (sp_wait_for_task E config session_id task_id 178956971 s) = Inr 0"
  "calls Task_status (world (sp_wait_for_task E config session_id task_id 178956971 s))
     = calls Task_status s"
  by (simp_all add: sp_wait_for_task_def int32_def wait_exhausted)


section \<open>The run as a whole\<close>

lemma submissions_simps [simp]:
  "submissions (emit es s) = submissions s @ List.map_filter submitted es"
  "submissions (enter b s) = submissions s"
  by (simp_all add: submissions_def map_filter_def)

lemma map_filter_simps [simp]:
  "List.map_filter f [] = []"
  "List.map_filter f (x # xs) = (case f x of None \<Rightarrow> List.map_filter f xs
                                 | Some y \<Rightarrow> y # List.map_filter f xs)"
  "List.map_filter f (xs @ ys) = List.map_filter f xs @ List.map_filter f ys"
  by (simp_all add: map_filter_def split: option.splits)

lemma initial_state_simps [simp]:
  "calls a \<lparr>inits = n, events = []\<rparr> = 0"
  "submissions \<lparr>inits = n, events = []\<rparr> = []"
  "requests \<lparr>inits = n, events = []\<rparr> = []"
  "diagnostics \<lparr>inits = n, events = []\<rparr> = []"
  by (simp_all add: calls_def submissions_def requests_def diagnostics_def)

subsection \<open>What each request function does to the world\<close>

lemma sign_on_session:
  "(case returned (sp_sign_on E config None s) of
      Inl f \<Rightarrow> Inl f
    | Inr (task_id, session_id) \<Rightarrow> Inr session_id) = signon_session E config (inits s)"
  by (simp add: signon_session_def sp_sign_on_def Let_def
        split: curl_result.splits option.splits)

lemma signon_session_eq:
  "signon_session E config n =
     (if curl_easy_init E n Sign_on then
        (case curl_easy_perform E n Sign_on (signon_request config) of
           CURLE_OK response_code blocks \<Rightarrow>
             (case received blocks of
                None \<Rightarrow> Inl Uninitialised_read
              | Some data \<Rightarrow>
                  if response_code = 200 \<or> response_code = 201
                  then Inr (extract_json_value data ''sessionId'') else Inr None)
         | CURLE_FAILED e \<Rightarrow> Inr None)
      else Inr None)"
  by (simp add: signon_session_def sp_sign_on_def Let_def
        split: curl_result.splits option.splits)

lemma sign_on_effect [simp]:
  "inits (world (sp_sign_on E config sid0 s)) = Suc (inits s)"
  "calls a (world (sp_sign_on E config sid0 s)) = calls a s + (if a = Sign_on then 1 else 0)"
  "submissions (world (sp_sign_on E config sid0 s)) = submissions s"
  by (simp_all add: sp_sign_on_def Let_def split: curl_result.splits option.splits)

lemma sign_on_requests:
  "requests (world (sp_sign_on E config sid0 s))
     = requests s @ (if curl_easy_init E (inits s) Sign_on
                     then [Perform Sign_on (signon_request config)] else [])"
  by (simp add: sp_sign_on_def Let_def split: curl_result.splits option.splits)

lemma sign_on_cases:
  obtains (stopped) f s4 where
      "sp_sign_on E config None s = Inl (f, s4)"
      "signon_session E config (inits s) = Inl f"
      "s4 = world (sp_sign_on E config None s)"
  | (returns) task_id session_id s4 where
      "sp_sign_on E config None s = Inr ((task_id, session_id), s4)"
      "signon_session E config (inits s) = Inr session_id"
      "s4 = world (sp_sign_on E config None s)"
proof (cases rule: outcome_cases[of "sp_sign_on E config None s"])
  case (stopped f s4)
  from stopped(2) sign_on_session[of E config s]
  have "signon_session E config (inits s) = Inl f" by simp
  with stopped(1,3) show ?thesis using that(1) by simp
next
  case (returns v s4)
  obtain task_id session_id where v: "v = (task_id, session_id)" by (cases v)
  from returns(2) sign_on_session[of E config s]
  have "signon_session E config (inits s) = Inr session_id" by (simp add: v)
  with returns(1,3) show ?thesis using that(2) by (simp add: v)
qed

lemma sign_off_effect [simp]:
  "inits (sp_sign_off E config sid s) = Suc (inits s)"
  "calls a (sp_sign_off E config sid s) = calls a s + (if a = Sign_off then 1 else 0)"
  "submissions (sp_sign_off E config sid s) = submissions s"
  by (simp_all add: sp_sign_off_def Let_def)

lemma task_data_effect [simp]:
  "inits (world (sp_get_task_data E config sid tid s)) = Suc (inits s)"
  "calls a (world (sp_get_task_data E config sid tid s))
     = calls a s + (if a = Task_data then 1 else 0)"
  "submissions (world (sp_get_task_data E config sid tid s)) = submissions s"
  by (simp_all add: sp_get_task_data_def Let_def split: curl_result.splits option.splits)

lemma status_submissions [simp]:
  "submissions (world (sp_get_task_status E config sid tid s)) = submissions s"
  by (simp add: status_world)

lemma wait_loop_frame:
  "inits s \<le> inits (world (sp_wait_loop E config sid tid max_attempts i s))
   \<and> (\<forall>a. a \<noteq> Task_status \<longrightarrow>
          calls a (world (sp_wait_loop E config sid tid max_attempts i s)) = calls a s)
   \<and> submissions (world (sp_wait_loop E config sid tid max_attempts i s)) = submissions s"
proof (induction "nat (max_attempts - i)" arbitrary: i s)
  case 0
  hence "\<not> i < max_attempts" by simp
  thus ?case by (simp add: wait_exhausted)
next
  case (Suc m)
  hence lt: "i < max_attempts" and m: "m = nat (max_attempts - (i + 1))" by simp_all
  let ?s1 = "world (sp_get_task_status E config sid tid s)"
  show ?case
  proof (cases rule: observation_cases[of "observed E config sid tid (inits s)"])
    case (stopped f)
    from wait_stopped[OF lt stopped] show ?thesis by simp
  next
    case ends_wait
    thus ?thesis
    proof (cases rule: ends_wait_cases)
      case 1
      from wait_return_success[OF lt 1] show ?thesis by simp
    next
      case (2 st)
      from wait_return_failure[OF lt 2] show ?thesis by simp
    qed
  next
    case goes_on
    thus ?thesis
    proof (cases rule: goes_on_cases)
      case 1
      from Suc.hyps(1)[OF m, of "emit [Sleep 5] ?s1"]
      show ?thesis
        unfolding wait_no_state[OF lt 1] by simp
    next
      case (2 st)
      define s2 where "s2 =
        (if (st = ''Running'' \<or> st = ''Pending'') \<and> i mod 6 = 0
         then emit [Stdout ''  Status: %s... (checking again in 5s)\<newline>'' [S st]] ?s1
         else ?s1)"
      have s2: "inits s2 = Suc (inits s)" "submissions s2 = submissions s"
        "\<And>a. a \<noteq> Task_status \<Longrightarrow> calls a s2 = calls a s"
        by (simp_all add: s2_def)
      from Suc.hyps(1)[OF m, of "emit [Sleep 5] s2"]
      show ?thesis
        unfolding wait_continue[OF lt 2] s2_def[symmetric] by (simp add: s2)
    qed
  qed
qed

lemma wait_for_task_frame [simp]:
  "a \<noteq> Task_status \<Longrightarrow>
     calls a (world (sp_wait_for_task E config sid tid max_minutes s)) = calls a s"
  "submissions (world (sp_wait_for_task E config sid tid max_minutes s)) = submissions s"
  using wait_loop_frame[of _ E config sid tid "int32 (max_minutes * 12)" 0]
  by (simp_all add: sp_wait_for_task_def)

lemma start_backup_overflow:
  assumes "curl_easy_init E (inits s) Start_backup"
    and "8193 < length (full_body sid name path fl)"
  shows "sp_start_backup E config sid path name fl s
           = Inl (Write_out_of_bounds, enter Start_backup s)"
  using assms by (simp add: sp_start_backup_def Let_def build_payload_cases)

lemma start_backup_effect [simp]:
  "inits (world (sp_start_backup E config sid path name fl s)) = Suc (inits s)"
  "calls a (world (sp_start_backup E config sid path name fl s))
     = calls a s + (if a = Start_backup then 1 else 0)"
  by (simp_all add: sp_start_backup_def Let_def build_payload_cases
        split: curl_result.splits option.splits)

lemma start_backup_submissions:
  "submissions (world (sp_start_backup E config sid path name fl s))
     = submissions s
         @ (if curl_easy_init E (inits s) Start_backup
               \<and> length (full_body sid name path fl) \<le> 8193
            then [backup_request config (take 8191 (full_body sid name path fl))] else [])"
  by (simp add: sp_start_backup_def Let_def build_payload_cases
        split: curl_result.splits option.splits)

lemma start_backup_returned:
  "returned (sp_start_backup E config sid path name fl s) =
     (if \<not> curl_easy_init E (inits s) Start_backup then Inr None
      else if 8193 < length (full_body sid name path fl) then Inl Write_out_of_bounds
      else
        case curl_easy_perform E (inits s) Start_backup
               (backup_request config (take 8191 (full_body sid name path fl))) of
          CURLE_OK response_code blocks \<Rightarrow>
            (case received blocks of
               None \<Rightarrow> Inl Uninitialised_read
             | Some data \<Rightarrow>
                 if response_code = 200 \<or> response_code = 201 \<or> response_code = 202
                 then Inr (extract_json_value data ''taskId'') else Inr None)
        | CURLE_FAILED e \<Rightarrow> Inr None)"
  by (simp add: sp_start_backup_def Let_def build_payload_cases
        split: curl_result.splits option.splits)

lemma scan_directory_fst: "fst (scan_directory E dir_path s) = found_files E dir_path"
  by (simp add: found_files_def scan_directory_def split: option.splits)

lemma scan_directory_effect [simp]:
  "inits (snd (scan_directory E dir_path s)) = inits s"
  "calls a (snd (scan_directory E dir_path s)) = calls a s"
  "submissions (snd (scan_directory E dir_path s)) = submissions s"
  "requests (snd (scan_directory E dir_path s)) = requests s"
  by (simp_all add: scan_directory_def split: option.splits)

lemma file_line_simps [simp]:
  "count_list (map (file_line E) files) (Invoke a) = 0"
  "List.map_filter submitted (map (file_line E) files) = []"
  "filter is_perform (map (file_line E) files) = []"
  by (induction files) (simp_all add: file_line_def)

subsection \<open>The stages of \<^verbatim>\<open>main\<close>\<close>

text \<open>
  \<^verbatim>\<open>main\<close> from the sign-on on, for a run with the password set and a file found:
  \<open>s3\<close> is the world just before \<^verbatim>\<open>sp_sign_on\<close> is called.
\<close>

lemma main_from_sign_on:
  assumes "getenv E ''SP_PASSWORD'' \<noteq> None"
    and "found_files E (download_directory argv) \<noteq> []"
  obtains s3 where "inits s3 = 0" and "\<And>a. calls a s3 = 0" and "submissions s3 = []"
    and "requests s3 = []"
    and "main E argv =
      and_then (sp_sign_on E (load_config E) None s3)
        (after_sign_on E (load_config E) (download_directory argv)
           (found_files E (download_directory argv)))"
proof -
  let ?dir = "download_directory argv"
  let ?files = "found_files E ?dir"
  define s2 where "s2 = snd (scan_directory E ?dir
      (emit [Stdout ''%s\<newline>'' [S rule_line],
             Stdout ''  IBM STORAGE PROTECT - C UPLOADER\<newline>'' [],
             Stdout ''%s\<newline>'' [S rule_line],
             Stdout ''\<newline>Scanning directory: %s\<newline>'' [S ?dir]]
         \<lparr>inits = 0, events = []\<rparr>))"
  define s3 where "s3 = emit
      ([Stdout ''Found %d file(s) to backup:\<newline>'' [D (int (length ?files))]]
         @ map (file_line E) ?files
         @ [Stdout ''\<newline>%s\<newline>'' [S rule_line],
            Stdout ''  SIGNING ON TO IBM STORAGE PROTECT\<newline>'' [],
            Stdout ''%s\<newline>'' [S rule_line]]) s2"
  have pw: "password (load_config E) \<noteq> None"
    using assms(1) by (simp add: load_config_def)
  have s2: "inits s2 = 0" "\<And>a. calls a s2 = 0" "submissions s2 = []" "requests s2 = []"
    by (simp_all add: s2_def)
  show ?thesis
  proof (rule that[of s3])
    show "inits s3 = 0" "\<And>a. calls a s3 = 0" "submissions s3 = []" "requests s3 = []"
      by (simp_all add: s3_def s2)
    show "main E argv =
      and_then (sp_sign_on E (load_config E) None s3)
        (after_sign_on E (load_config E) (download_directory argv)
           (found_files E (download_directory argv)))"
      unfolding main_def Let_def scan_directory_fst s2_def[symmetric] s3_def[symmetric]
      using pw assms(2)
      by (simp only: if_False length_0_conv)
  qed
qed

text \<open>The tail of \<^verbatim>\<open>main\<close> after the submission: the sign-off is the last thing it does.\<close>

lemma finish_backup_effect:
  "submissions (world (finish_backup E config sid (b, s5))) = submissions s5"
  "calls Sign_on (world (finish_backup E config sid (b, s5))) = calls Sign_on s5"
  "calls Start_backup (world (finish_backup E config sid (b, s5))) = calls Start_backup s5"
  "calls Sign_off (world (finish_backup E config sid (b, s5)))
     = calls Sign_off s5
         + (case returned (finish_backup E config sid (b, s5)) of Inl f \<Rightarrow> 0 | Inr code \<Rightarrow> 1)"
proof -
  let ?goal = "\<lambda>r. submissions (world r) = submissions s5
    \<and> calls Sign_on (world r) = calls Sign_on s5
    \<and> calls Start_backup (world r) = calls Start_backup s5
    \<and> calls Sign_off (world r)
        = calls Sign_off s5 + (case returned r of Inl f \<Rightarrow> 0 | Inr code \<Rightarrow> 1)"
  have "?goal (finish_backup E config sid (b, s5))"
  proof (cases b)
    case None
    thus ?thesis by simp
  next
    case (Some tid)
    show ?thesis
    proof (cases rule: outcome_cases[of "sp_wait_for_task E config sid tid 10 s5"])
      case (stopped f s6)
      from stopped(3) have "submissions s6 = submissions s5" "calls Sign_on s6 = calls Sign_on s5"
        "calls Start_backup s6 = calls Start_backup s5" "calls Sign_off s6 = calls Sign_off s5"
        by auto
      thus ?thesis by (simp add: Some stopped(1))
    next
      case (returns success s6)
      from returns(3) have s6: "submissions s6 = submissions s5"
        "calls Sign_on s6 = calls Sign_on s5"
        "calls Start_backup s6 = calls Start_backup s5" "calls Sign_off s6 = calls Sign_off s5"
        by auto
      show ?thesis
      proof (cases "success = 0")
        case True
        thus ?thesis by (simp add: Some returns(1) s6)
      next
        case False
        show ?thesis
        proof (cases rule: outcome_cases[of "sp_get_task_data E config sid tid s6"])
          case (stopped f s7)
          from stopped(3) have "submissions s7 = submissions s6"
            "calls Sign_on s7 = calls Sign_on s6"
            "calls Start_backup s7 = calls Start_backup s6"
            "calls Sign_off s7 = calls Sign_off s6"
            by auto
          thus ?thesis by (simp add: Some returns(1) stopped(1) False s6)
        next
          case (returns u s7)
          from returns(3) have "submissions s7 = submissions s6"
            "calls Sign_on s7 = calls Sign_on s6"
            "calls Start_backup s7 = calls Start_backup s6"
            "calls Sign_off s7 = calls Sign_off s6"
            by auto
          thus ?thesis by (simp add: Some \<open>sp_wait_for_task E config sid tid 10 s5 = Inr (success, s6)\<close>
                returns(1) False s6)
        qed
      qed
    qed
  qed
  thus "submissions (world (finish_backup E config sid (b, s5))) = submissions s5"
    "calls Sign_on (world (finish_backup E config sid (b, s5))) = calls Sign_on s5"
    "calls Start_backup (world (finish_backup E config sid (b, s5))) = calls Start_backup s5"
    "calls Sign_off (world (finish_backup E config sid (b, s5)))
       = calls Sign_off s5
           + (case returned (finish_backup E config sid (b, s5)) of Inl f \<Rightarrow> 0 | Inr code \<Rightarrow> 1)"
    by simp_all
qed

text \<open>
  A run with the password set, a file found and a session id from the sign-on:
  \<open>s4\<close> is the world in which \<^verbatim>\<open>sp_start_backup\<close> is called.
\<close>

lemma main_signed_on:
  assumes pw: "getenv E ''SP_PASSWORD'' \<noteq> None"
    and ff: "found_files E (download_directory argv) \<noteq> []"
    and sid: "signon_session E (load_config E) 0 = Inr (Some sid)"
  obtains s4 where "inits s4 = 1" and "calls Sign_on s4 = 1" and "calls Sign_off s4 = 0"
    and "calls Start_backup s4 = 0" and "submissions s4 = []"
    and "main E argv =
      and_then
        (sp_start_backup E (load_config E) sid (download_directory argv)
           (''ceph_downloads_'' @ timestamp E)
           (Some (found_files E (download_directory argv))) s4)
        (finish_backup E (load_config E) sid)"
proof -
  from main_from_sign_on[OF pw ff] obtain s3 where
    s3: "inits s3 = 0" "\<And>a. calls a s3 = 0" "submissions s3 = []"
    and m: "main E argv =
      and_then (sp_sign_on E (load_config E) None s3)
        (after_sign_on E (load_config E) (download_directory argv)
           (found_files E (download_directory argv)))"
    by blast
  show ?thesis
  proof (cases rule: sign_on_cases[of E "load_config E" s3])
    case (stopped f s4)
    with sid s3(1) show ?thesis by simp
  next
    case (returns task_id session_id s4)
    with sid s3(1) have session_id: "session_id = Some sid" by simp
    show ?thesis
    proof (rule that[of s4])
      show "inits s4 = 1" "calls Sign_on s4 = 1" "calls Sign_off s4 = 0"
        "calls Start_backup s4 = 0" "submissions s4 = []"
        by (simp_all add: returns(3) s3)
      show "main E argv =
        and_then
          (sp_start_backup E (load_config E) sid (download_directory argv)
             (''ceph_downloads_'' @ timestamp E)
             (Some (found_files E (download_directory argv))) s4)
          (finish_backup E (load_config E) sid)"
        unfolding m returns(1) session_id
        by (simp only: and_then_simps prod.case option.case)
    qed
  qed
qed

lemma main_stopped_at_sign_on:
  assumes pw: "getenv E ''SP_PASSWORD'' \<noteq> None"
    and ff: "found_files E (download_directory argv) \<noteq> []"
    and sid: "signon_session E (load_config E) 0 = Inl f"
  shows "returned (main E argv) = Inl f
       \<and> calls Sign_on (world (main E argv)) = 1
       \<and> calls Start_backup (world (main E argv)) = 0
       \<and> calls Sign_off (world (main E argv)) = 0
       \<and> submissions (world (main E argv)) = []
       \<and> (\<exists>s3. inits s3 = 0
             \<and> world (main E argv) = world (sp_sign_on E (load_config E) None s3))"
proof -
  from main_from_sign_on[OF pw ff] obtain s3 where
    s3: "inits s3 = 0" "\<And>a. calls a s3 = 0" "submissions s3 = []"
    and m: "main E argv =
      and_then (sp_sign_on E (load_config E) None s3)
        (after_sign_on E (load_config E) (download_directory argv)
           (found_files E (download_directory argv)))"
    by blast
  show ?thesis
  proof (cases rule: sign_on_cases[of E "load_config E" s3])
    case (stopped f' s4)
    with sid s3(1) have f: "f' = f" by simp
    have s4: "calls Sign_on s4 = 1" "calls Sign_off s4 = 0"
      "calls Start_backup s4 = 0" "submissions s4 = []"
      by (simp_all add: stopped(3) s3)
    have "main E argv = Inl (f, s4)"
      unfolding m stopped(1) f by (simp only: and_then_simps)
    moreover have "\<exists>s3. inits s3 = 0 \<and> s4 = world (sp_sign_on E (load_config E) None s3)"
      using s3(1) stopped(3) by blast
    ultimately show ?thesis by (simp add: s4)
  next
    case (returns task_id session_id s4)
    with sid s3(1) show ?thesis by simp
  qed
qed

lemma main_no_session:
  assumes pw: "getenv E ''SP_PASSWORD'' \<noteq> None"
    and ff: "found_files E (download_directory argv) \<noteq> []"
    and sid: "signon_session E (load_config E) 0 = Inr None"
  shows "\<exists>s. main E argv = Inr (1, s)
           \<and> calls Sign_on s = 1 \<and> calls Start_backup s = 0 \<and> calls Sign_off s = 0
           \<and> submissions s = []
           \<and> last (events s) = Stderr ''Failed to sign on\<newline>'' []"
proof -
  from main_from_sign_on[OF pw ff] obtain s3 where
    s3: "inits s3 = 0" "\<And>a. calls a s3 = 0" "submissions s3 = []"
    and m: "main E argv =
      and_then (sp_sign_on E (load_config E) None s3)
        (after_sign_on E (load_config E) (download_directory argv)
           (found_files E (download_directory argv)))"
    by blast
  show ?thesis
  proof (cases rule: sign_on_cases[of E "load_config E" s3])
    case (stopped f' s4)
    with sid s3(1) show ?thesis by simp
  next
    case (returns task_id session_id s4)
    with sid s3(1) have session_id: "session_id = None" by simp
    have s4: "calls Sign_on s4 = 1" "calls Sign_off s4 = 0"
      "calls Start_backup s4 = 0" "submissions s4 = []"
      by (simp_all add: returns(3) s3)
    have "main E argv = Inr (1, emit [Stderr ''Failed to sign on\<newline>'' []] s4)"
      unfolding m returns(1) session_id
      by (simp only: and_then_simps prod.case option.case)
    thus ?thesis by (simp add: s4)
  qed
qed

text \<open>
  In a run whose sign-on obtained a session id, \<^verbatim>\<open>sp_sign_off\<close> has been called once when
  the run returns, and not at all when the run is stopped by a fault. One job submission
  is put on the wire, unless no handle was given or the body has more than 8193
  characters.
\<close>

lemma main_session_effect:
  assumes pw: "getenv E ''SP_PASSWORD'' \<noteq> None"
    and ff: "found_files E (download_directory argv) \<noteq> []"
    and sid: "signon_session E (load_config E) 0 = Inr (Some sid)"
  shows "calls Sign_on (world (main E argv)) = 1"
    and "calls Start_backup (world (main E argv)) = 1"
    and "calls Sign_off (world (main E argv))
           = (case returned (main E argv) of Inl f \<Rightarrow> 0 | Inr code \<Rightarrow> 1)"
    and "submissions (world (main E argv))
           = (if curl_easy_init E 1 Start_backup
                 \<and> length (full_body sid (''ceph_downloads_'' @ timestamp E)
                             (download_directory argv)
                             (Some (found_files E (download_directory argv)))) \<le> 8193
              then [backup_request (load_config E)
                      (take 8191
                         (full_body sid (''ceph_downloads_'' @ timestamp E)
                            (download_directory argv)
                            (Some (found_files E (download_directory argv)))))]
              else [])"
proof -
  let ?cfg = "load_config E" and ?dir = "download_directory argv"
  let ?name = "''ceph_downloads_'' @ timestamp E"
  let ?files = "Some (found_files E (download_directory argv))"
  from main_signed_on[OF pw ff sid] obtain s4 where
    s4: "inits s4 = 1" "calls Sign_on s4 = 1" "calls Sign_off s4 = 0"
      "calls Start_backup s4 = 0" "submissions s4 = []"
    and m: "main E argv =
      and_then (sp_start_backup E ?cfg sid ?dir ?name ?files s4) (finish_backup E ?cfg sid)"
    by blast
  define sb where "sb = sp_start_backup E ?cfg sid ?dir ?name ?files s4"
  have m': "main E argv = and_then sb (finish_backup E ?cfg sid)"
    unfolding sb_def by (rule m)
  have w: "calls Sign_on (world sb) = 1" "calls Start_backup (world sb) = 1"
    "calls Sign_off (world sb) = 0"
    "submissions (world sb)
       = (if curl_easy_init E 1 Start_backup \<and> length (full_body sid ?name ?dir ?files) \<le> 8193
          then [backup_request ?cfg (take 8191 (full_body sid ?name ?dir ?files))] else [])"
    by (simp_all add: sb_def s4 start_backup_submissions)
  have "calls Sign_on (world (main E argv)) = 1
      \<and> calls Start_backup (world (main E argv)) = 1
      \<and> calls Sign_off (world (main E argv))
           = (case returned (main E argv) of Inl f \<Rightarrow> 0 | Inr code \<Rightarrow> 1)
      \<and> submissions (world (main E argv)) = submissions (world sb)"
  proof (cases rule: outcome_cases[of sb])
    case (stopped f s5)
    have "main E argv = Inl (f, s5)"
      unfolding m' stopped(1) by (simp only: and_then_simps)
    with w(1,2,3) stopped(3) show ?thesis by simp
  next
    case (returns b s5)
    have "main E argv = finish_backup E ?cfg sid (b, s5)"
      unfolding m' returns(1) by (simp only: and_then_simps)
    with w(1,2,3) returns(3) finish_backup_effect[of E ?cfg sid b s5] show ?thesis by simp
  qed
  with w show "calls Sign_on (world (main E argv)) = 1"
    and "calls Start_backup (world (main E argv)) = 1"
    and "calls Sign_off (world (main E argv))
           = (case returned (main E argv) of Inl f \<Rightarrow> 0 | Inr code \<Rightarrow> 1)"
    and "submissions (world (main E argv))
           = (if curl_easy_init E 1 Start_backup
                 \<and> length (full_body sid (''ceph_downloads_'' @ timestamp E)
                             (download_directory argv)
                             (Some (found_files E (download_directory argv)))) \<le> 8193
              then [backup_request (load_config E)
                      (take 8191
                         (full_body sid (''ceph_downloads_'' @ timestamp E)
                            (download_directory argv)
                            (Some (found_files E (download_directory argv)))))]
              else [])"
    by simp_all
qed

lemma main_overflow:
  assumes pw: "getenv E ''SP_PASSWORD'' \<noteq> None"
    and ff: "found_files E (download_directory argv) \<noteq> []"
    and sid: "signon_session E (load_config E) 0 = Inr (Some sid)"
    and init: "curl_easy_init E 1 Start_backup"
    and long: "8193 < length (full_body sid (''ceph_downloads_'' @ timestamp E)
                               (download_directory argv)
                               (Some (found_files E (download_directory argv))))"
  shows "returned (main E argv) = Inl Write_out_of_bounds"
proof -
  from main_signed_on[OF pw ff sid] obtain s4 where
    s4: "inits s4 = 1"
    and m: "main E argv =
      and_then
        (sp_start_backup E (load_config E) sid (download_directory argv)
           (''ceph_downloads_'' @ timestamp E)
           (Some (found_files E (download_directory argv))) s4)
        (finish_backup E (load_config E) sid)"
    by blast
  from init s4 have "curl_easy_init E (inits s4) Start_backup" by simp
  from start_backup_overflow[OF this long, of "load_config E"]
  show ?thesis
    unfolding m by (simp only: and_then_simps returned_simps)
qed

subsection \<open>Worlds that answer the same\<close>

lemma status_cong:
  assumes "\<And>n. curl_easy_init E' n Task_status = curl_easy_init E n Task_status"
    and "\<And>n r. curl_easy_perform E' n Task_status r = curl_easy_perform E n Task_status r"
    and "status_request config' sid tid = status_request config sid tid"
  shows "sp_get_task_status E' config' sid tid s = sp_get_task_status E config sid tid s"
  by (simp add: sp_get_task_status_def Let_def assms)

lemma wait_loop_cong:
  assumes "\<And>n. curl_easy_init E' n Task_status = curl_easy_init E n Task_status"
    and "\<And>n r. curl_easy_perform E' n Task_status r = curl_easy_perform E n Task_status r"
    and "status_request config' sid tid = status_request config sid tid"
  shows "sp_wait_loop E' config' sid tid max_attempts i s
           = sp_wait_loop E config sid tid max_attempts i s"
proof (induction "nat (max_attempts - i)" arbitrary: i s)
  case 0
  hence "\<not> i < max_attempts" by simp
  thus ?case by (simp add: wait_exhausted)
next
  case (Suc m)
  hence lt: "i < max_attempts" and m: "m = nat (max_attempts - (i + 1))" by simp_all
  note st = status_cong[of E' E config' sid tid config, OF assms]
  have ob: "observed E' config' sid tid (inits s) = observed E config sid tid (inits s)"
    by (simp add: observed_def st)
  show ?case
  proof (cases rule: observation_cases[of "observed E config sid tid (inits s)"])
    case (stopped f)
    with ob have stopped': "observed E' config' sid tid (inits s) = Inl f" by simp
    show ?thesis
      unfolding wait_stopped[OF lt stopped] wait_stopped[OF lt stopped'] st ..
  next
    case ends_wait
    thus ?thesis
    proof (cases rule: ends_wait_cases)
      case 1
      with ob have same1: "observed E' config' sid tid (inits s) = Inr (Some ''Success'')" by simp
      show ?thesis
        unfolding wait_return_success[OF lt 1] wait_return_success[OF lt same1] st ..
    next
      case (2 x)
      with ob have same2: "observed E' config' sid tid (inits s) = Inr (Some x)" by simp
      show ?thesis
        unfolding wait_return_failure[OF lt 2] wait_return_failure[OF lt same2 2(2)] st ..
    qed
  next
    case goes_on
    thus ?thesis
    proof (cases rule: goes_on_cases)
      case 1
      with ob have same1: "observed E' config' sid tid (inits s) = Inr None" by simp
      show ?thesis
        unfolding wait_no_state[OF lt 1] wait_no_state[OF lt same1] st
        by (rule Suc.hyps(1)[OF m])
    next
      case (2 x)
      with ob have same2: "observed E' config' sid tid (inits s) = Inr (Some x)" by simp
      show ?thesis
        unfolding wait_continue[OF lt 2] wait_continue[OF lt same2 2(2,3,4)] st
        by (rule Suc.hyps(1)[OF m])
    qed
  qed
qed

lemma wait_for_task_cong:
  assumes "\<And>n. curl_easy_init E' n Task_status = curl_easy_init E n Task_status"
    and "\<And>n r. curl_easy_perform E' n Task_status r = curl_easy_perform E n Task_status r"
    and "status_request config' sid tid = status_request config sid tid"
  shows "sp_wait_for_task E' config' sid tid max_minutes s
           = sp_wait_for_task E config sid tid max_minutes s"
  unfolding sp_wait_for_task_def Let_def
  by (rule wait_loop_cong[OF assms])

lemma exit_status_simps [simp]:
  "exit_status (Inl (f, s)) = Inl f" "exit_status (Inr (code, s)) = Inr code"
  by (simp_all add: exit_status_def)

subsection \<open>Facts about the concrete inputs\<close>

lemma found_files_simps:
  "found_files E dir_path =
     (case opendir E dir_path of None \<Rightarrow> [] | Some entries \<Rightarrow> scan_entries dir_path entries [])"
  by (simp add: found_files_def scan_directory_def split: option.splits)

lemma download_directory_default [simp]: "download_directory [a] = ''downloads''"
  by (simp add: download_directory_def)

lemma scripted_getenv [simp]:
  "getenv (scripted_env script) ''SP_PASSWORD'' = Some ''secret''"
  by (simp add: scripted_env_def)

lemma stalled_facts [simp]:
  "getenv stalled_env ''SP_PASSWORD'' = Some ''secret''"
  "found_files stalled_env ''downloads'' = [''downloads/report.txt'']"
  "timestamp stalled_env = ''20260101_120000''"
  "curl_easy_init stalled_env n a"
  by (simp_all add: stalled_env_def scripted_env_def found_files_simps MAX_FILES_def
        snprintf_def MAX_PATH_LEN_def)

lemma failing_facts [simp]:
  "getenv failing_env ''SP_PASSWORD'' = Some ''secret''"
  "found_files failing_env ''downloads'' = [''downloads/report.txt'']"
  "timestamp failing_env = ''20260101_120000''"
  "curl_easy_init failing_env n a"
  by (simp_all add: failing_env_def scripted_env_def found_files_simps MAX_FILES_def
        snprintf_def MAX_PATH_LEN_def)

lemma failing_session:
  "signon_session failing_env (load_config failing_env) 0 = Inr (Some ''S1'')"
  by (simp add: signon_session_eq failing_env_def scripted_env_def decoder_defs)

lemma stalled_session:
  "signon_session stalled_env (load_config stalled_env) 0 = Inr (Some ''S1'')"
  by (simp add: signon_session_eq stalled_env_def scripted_env_def decoder_defs)

lemma report_body_length:
  "length (full_body ''S1'' (''ceph_downloads_'' @ ''20260101_120000'') ''downloads''
             (Some [''downloads/report.txt''])) = 155"
  by (simp add: full_body_def payload_head_def dquote_def)

lemma strrchr_txt: "strrchr (stem @ ''.txt'') CHR ''.'' = Some ''.txt''"
  by (induction stem) simp_all

lemma scan_entries_all:
  assumes "\<forall>e\<in>set entries. d_type e = DT_REG \<and> (\<exists>stem. d_name e = stem @ ''.txt'')
             \<and> length (dir_path @ ''/'' @ d_name e) \<le> 1023"
    and "length files + length entries \<le> MAX_FILES"
  shows "scan_entries dir_path entries files
           = files @ map (\<lambda>e. dir_path @ ''/'' @ d_name e) entries"
  using assms
proof (induction entries arbitrary: files)
  case Nil
  show ?case by simp
next
  case (Cons e entries)
  from Cons.prems(1) obtain stem where e: "d_type e = DT_REG" "d_name e = stem @ ''.txt''"
    "length (dir_path @ ''/'' @ d_name e) \<le> 1023"
    by auto
  from Cons.prems(2) have lt: "length files < MAX_FILES" by simp
  let ?p = "dir_path @ ''/'' @ d_name e"
  have p: "snprintf MAX_PATH_LEN ?p = ?p"
    using e(3) by (simp add: snprintf_def MAX_PATH_LEN_def)
  have step: "scan_entries dir_path (e # entries) files
                = scan_entries dir_path entries (files @ [?p])"
    using lt e(1) p by (simp add: e(2) strrchr_txt)
  have "scan_entries dir_path entries (files @ [?p])
          = (files @ [?p]) @ map (\<lambda>e. dir_path @ ''/'' @ d_name e) entries"
    using Cons.prems by (intro Cons.IH) simp_all
  with step show ?case by simp
qed

lemma big_names_shape:
  "\<forall>name\<in>set big_names. (\<exists>stem. name = stem @ ''.txt'') \<and> length name = 250"
  by (auto simp: big_names_def)

lemma big_env_files: "found_files big_env ''downloads'' = big_manifest"
proof -
  have "scan_entries ''downloads'' (map (\<lambda>name. \<lparr>d_type = DT_REG, d_name = name\<rparr>) big_names) []
          = [] @ map (\<lambda>e. ''downloads'' @ ''/'' @ d_name e)
                   (map (\<lambda>name. \<lparr>d_type = DT_REG, d_name = name\<rparr>) big_names)"
    using big_names_shape
    by (intro scan_entries_all) (auto simp: MAX_FILES_def big_names_def)
  thus ?thesis
    by (simp add: found_files_simps big_env_def big_manifest_def comp_def)
qed

lemma big_env_facts:
  "getenv big_env ''SP_PASSWORD'' \<noteq> None"
  "signon_session big_env (load_config big_env) 0 = Inr (Some ''S1'')"
  "timestamp big_env = ''20260101_120000''"
  "curl_easy_init big_env 1 Start_backup"
  by (simp_all add: big_env_def stalled_env_def scripted_env_def signon_session_eq decoder_defs)

lemma big_body_length:
  "length (full_body ''S1'' ''ceph_downloads_20260101_120000'' ''downloads'' (Some big_manifest))
     = 9600"
  by (simp add: full_body_def payload_head_def length_file_entries
        big_manifest_def big_names_def)

lemma big_env_run:
  "found_files big_env (download_directory [''sp_upload'']) \<noteq> []"
  "8193 < length (full_body ''S1'' (''ceph_downloads_'' @ timestamp big_env)
                    (download_directory [''sp_upload''])
                    (Some (found_files big_env (download_directory [''sp_upload'']))))"
proof -
  show "found_files big_env (download_directory [''sp_upload'']) \<noteq> []"
    by (simp add: big_env_files big_manifest_def big_names_def)
  show "8193 < length (full_body ''S1'' (''ceph_downloads_'' @ timestamp big_env)
                    (download_directory [''sp_upload''])
                    (Some (found_files big_env (download_directory [''sp_upload'']))))"
    using big_body_length by (simp add: big_env_facts big_env_files)
qed

section \<open>Nothing to upload\<close>

lemma main_nothing_found:
  assumes "getenv E ''SP_PASSWORD'' \<noteq> None"
    and "found_files E (download_directory argv) = []"
  shows "main E argv =
     Inr (0, emit [Stderr ''WARNING: No .txt files found in %s\<newline>''
                     [S (download_directory argv)]]
               (snd (scan_directory E (download_directory argv)
                  (emit [Stdout ''%s\<newline>'' [S rule_line],
                         Stdout ''  IBM STORAGE PROTECT - C UPLOADER\<newline>'' [],
                         Stdout ''%s\<newline>'' [S rule_line],
                         Stdout ''\<newline>Scanning directory: %s\<newline>''
                           [S (download_directory argv)]]
                     \<lparr>inits = 0, events = []\<rparr>))))"
proof -
  have pw: "password (load_config E) \<noteq> None"
    using assms(1) by (simp add: load_config_def)
  show ?thesis
    unfolding main_def Let_def scan_directory_fst
    using pw assms(2) by (simp only: if_False if_True list.size simp_thms)
qed

text \<open>
  C8. When the password is set and the scan finds no regular \<^verbatim>\<open>.txt\<close> file, the run
  ends with exit status 0, its last output is the warning on standard error, no request
  function has been entered and no request has been put on the wire.
\<close>

theorem no_files_exit_0_without_requests:
  "getenv E ''SP_PASSWORD'' \<noteq> None \<Longrightarrow>
   found_files E (download_directory argv) = [] \<Longrightarrow>
     \<exists>s. main E argv = Inr (0, s)
        \<and> requests s = []
        \<and> (\<forall>a. calls a s = 0)
        \<and> last (events s)
            = Stderr ''WARNING: No .txt files found in %s\<newline>'' [S (download_directory argv)]"
proof -
  assume a: "getenv E ''SP_PASSWORD'' \<noteq> None" "found_files E (download_directory argv) = []"
  show ?thesis
    unfolding main_nothing_found[OF a]
    by (intro exI conjI, rule refl) simp_all
qed

theorem no_files_exit_0_without_requests_witness:
  "getenv empty_dir_env ''SP_PASSWORD'' = Some ''secret''
   \<and> found_files empty_dir_env (download_directory [''sp_upload'']) = []
   \<and> exit_status (main empty_dir_env [''sp_upload'']) = Inr 0"
proof -
  have pw: "getenv empty_dir_env ''SP_PASSWORD'' = Some ''secret''"
    by (simp add: empty_dir_env_def stalled_env_def)
  hence pw': "getenv empty_dir_env ''SP_PASSWORD'' \<noteq> None" by simp
  have nf: "found_files empty_dir_env (download_directory [''sp_upload'']) = []"
    by (simp add: found_files_simps empty_dir_env_def MAX_FILES_def)
  from no_files_exit_0_without_requests[OF pw' nf]
  have "exit_status (main empty_dir_env [''sp_upload'']) = Inr 0" by auto
  with pw nf show ?thesis by blast
qed

text \<open>
  C9. A scan directory that cannot be opened gives the empty file list, as an empty
  directory does, and no error of its own. The run then ends like the run on an empty
  directory: the warning is its last output, no request function is entered, no request
  is put on the wire and the exit status is 0. Of all events of the run only the line
  \<^verbatim>\<open>Error: Cannot open directory\<close>, which \<^verbatim>\<open>scan_directory\<close> writes to standard error,
  is not in the run on the empty directory.
\<close>

theorem unopenable_directory_as_empty:
  "getenv E ''SP_PASSWORD'' \<noteq> None \<Longrightarrow>
   opendir E (download_directory argv) = None \<Longrightarrow>
     fst (scan_directory E (download_directory argv) s0) = []
   \<and> fst (scan_directory E (download_directory argv) s0)
       = fst (scan_directory (E\<lparr>opendir := (opendir E)(download_directory argv \<mapsto> [])\<rparr>)
                (download_directory argv) s0)
   \<and> (\<exists>s s'. main E argv = Inr (0, s)
        \<and> main (E\<lparr>opendir := (opendir E)(download_directory argv \<mapsto> [])\<rparr>) argv = Inr (0, s')
        \<and> requests s = [] \<and> requests s' = []
        \<and> (\<forall>a. calls a s = 0)
        \<and> last (events s)
            = Stderr ''WARNING: No .txt files found in %s\<newline>'' [S (download_directory argv)]
        \<and> filter (\<lambda>e. e \<noteq> Stderr ''Error: Cannot open directory '%s'\<newline>''
                                  [S (download_directory argv)]) (events s)
            = events s')"
proof (intro conjI)
  let ?dir = "download_directory argv"
  let ?E0 = "E\<lparr>opendir := (opendir E)(?dir \<mapsto> [])\<rparr>"
  assume pw: "getenv E ''SP_PASSWORD'' \<noteq> None" and cl: "opendir E ?dir = None"
  show "fst (scan_directory E ?dir s0) = []"
    using cl by (simp add: scan_directory_def)
  show "fst (scan_directory E ?dir s0) = fst (scan_directory ?E0 ?dir s0)"
    using cl by (simp add: scan_directory_def)
  have nf: "found_files E ?dir = []" using cl by (simp add: found_files_simps)
  have pw0: "getenv ?E0 ''SP_PASSWORD'' \<noteq> None" using pw by simp
  have nf0: "found_files ?E0 ?dir = []" by (simp add: found_files_simps)
  show "\<exists>s s'. main E argv = Inr (0, s)
        \<and> main ?E0 argv = Inr (0, s')
        \<and> requests s = [] \<and> requests s' = []
        \<and> (\<forall>a. calls a s = 0)
        \<and> last (events s) = Stderr ''WARNING: No .txt files found in %s\<newline>'' [S ?dir]
        \<and> filter (\<lambda>e. e \<noteq> Stderr ''Error: Cannot open directory '%s'\<newline>'' [S ?dir])
              (events s) = events s'"
    unfolding main_nothing_found[OF pw nf] main_nothing_found[OF pw0 nf0]
    by (intro exI conjI, rule refl, rule refl) (simp_all add: scan_directory_def cl)
qed

theorem unopenable_directory_as_empty_witness:
  "getenv no_dir_env ''SP_PASSWORD'' = Some ''secret''
   \<and> opendir no_dir_env (download_directory [''sp_upload'']) = None
   \<and> fst (scan_directory no_dir_env (download_directory [''sp_upload'']) start_state) = []
   \<and> exit_status (main no_dir_env [''sp_upload'']) = Inr 0"
proof -
  have pw: "getenv no_dir_env ''SP_PASSWORD'' = Some ''secret''"
    by (simp add: no_dir_env_def stalled_env_def)
  hence pw': "getenv no_dir_env ''SP_PASSWORD'' \<noteq> None" by simp
  have cl: "opendir no_dir_env (download_directory [''sp_upload'']) = None"
    by (simp add: no_dir_env_def)
  note inst = unopenable_directory_as_empty[OF pw' cl, of start_state]
  from inst have "fst (scan_directory no_dir_env (download_directory [''sp_upload''])
                    start_state) = []"
    by blast
  moreover from inst have "exit_status (main no_dir_env [''sp_upload'']) = Inr 0"
    by auto
  ultimately show ?thesis using pw cl by blast
qed

section \<open>Sign-on and sign-off\<close>

text \<open>
  What the sign-on leaves in the caller's variable when the response body was delivered,
  and when the transfer did not take place.
\<close>

lemma sign_on_delivered:
  assumes "curl_easy_init E n Sign_on"
    and "curl_easy_perform E n Sign_on (signon_request config) = CURLE_OK code blocks"
    and "blocks \<noteq> []"
  shows "signon_session E config n =
           (if code = 200 \<or> code = 201
            then Inr (extract_json_value (concat blocks) ''sessionId'') else Inr None)"
  using assms by (cases blocks) (simp_all add: signon_session_eq)

lemma sign_on_not_transferred:
  assumes "\<not> curl_easy_init E n Sign_on
     \<or> (\<exists>e. curl_easy_perform E n Sign_on (signon_request config) = CURLE_FAILED e)"
  shows "signon_session E config n = Inr None"
  using assms by (auto simp: signon_session_eq)

lemma no_session_facts:
  "getenv no_session_env ''SP_PASSWORD'' \<noteq> None"
  "found_files no_session_env (download_directory [''sp_upload'']) \<noteq> []"
  "signon_session no_session_env (load_config no_session_env) 0 = Inr None"
  by (simp_all add: no_session_env_def found_files_simps stalled_env_def scripted_env_def
        MAX_FILES_def signon_session_eq decoder_defs)

lemma empty_signon_facts:
  "getenv empty_signon_env ''SP_PASSWORD'' \<noteq> None"
  "found_files empty_signon_env (download_directory [''sp_upload'']) \<noteq> []"
  "signon_session empty_signon_env (load_config empty_signon_env) 0 = Inl Uninitialised_read"
  "curl_easy_init empty_signon_env n a"
  "curl_easy_perform empty_signon_env n Sign_on r = CURLE_OK 200 []"
  by (simp_all add: empty_signon_env_def found_files_simps stalled_env_def scripted_env_def
        MAX_FILES_def signon_session_eq)

text \<open>
  C4. The claim is right where the response body was delivered: a sign-on response
  without a \<open>sessionId\<close> leaves no session id, and the run writes \<^verbatim>\<open>Failed to sign on\<close>,
  exits with status 1 and never calls the sign-off (\<^term>\<open>no_session_env\<close>, whose response
  carries a \<open>taskId\<close> only). A response with code 200 and an empty body is a response
  without a \<open>sessionId\<close> too, but here \<^verbatim>\<open>sp_sign_on\<close> prints its success line and then
  passes the response buffer to the decoder although no terminator was ever stored in
  it: the run stops at this read of the uninitialised block, with no exit status
  (\<^term>\<open>empty_signon_env\<close>).
\<close>

theorem empty_sign_on_reply_is_read_uninitialised:
  \<open>curl_easy_perform no_session_env 0 Sign_on (signon_request (load_config no_session_env))
     = CURLE_OK 200 [''{"taskId":"T0"}'']
   \<and> signon_session no_session_env (load_config no_session_env) 0 = Inr None
   \<and> exit_status (main no_session_env [''sp_upload'']) = Inr 1
   \<and> calls Sign_off (world (main no_session_env [''sp_upload''])) = 0
   \<and> curl_easy_perform empty_signon_env 0 Sign_on
        (signon_request (load_config empty_signon_env))
     = CURLE_OK 200 []
   \<and> returned (sp_sign_on empty_signon_env (load_config empty_signon_env) None start_state)
     = Inl Uninitialised_read
   \<and> signon_session empty_signon_env (load_config empty_signon_env) 0
     = Inl Uninitialised_read
   \<and> exit_status (main empty_signon_env [''sp_upload'']) = Inl Uninitialised_read
   \<and> calls Sign_on (world (main empty_signon_env [''sp_upload''])) = 1
   \<and> calls Sign_off (world (main empty_signon_env [''sp_upload''])) = 0
   \<and> last (events (world (main empty_signon_env [''sp_upload''])))
     = Stdout (check_mark @ '' Sign-on successful\<newline>'') []\<close>
proof -
  from main_no_session[OF no_session_facts]
  obtain s where "main no_session_env [''sp_upload''] = Inr (1, s)" "calls Sign_off s = 0"
    by blast
  hence a: "exit_status (main no_session_env [''sp_upload'']) = Inr 1
     \<and> calls Sign_off (world (main no_session_env [''sp_upload''])) = 0"
    by simp
  have b: \<open>curl_easy_perform no_session_env 0 Sign_on
             (signon_request (load_config no_session_env))
           = CURLE_OK 200 [''{"taskId":"T0"}'']\<close>
    by (simp add: no_session_env_def)
  note stop = main_stopped_at_sign_on[OF empty_signon_facts(1,2,3)]
  then obtain s3 where s3: "inits s3 = 0"
    "world (main empty_signon_env [''sp_upload''])
       = world (sp_sign_on empty_signon_env (load_config empty_signon_env) None s3)"
    by blast
  have c: "last (events (world (main empty_signon_env [''sp_upload''])))
             = Stdout (check_mark @ '' Sign-on successful\<newline>'') []"
    unfolding s3(2) by (simp add: sp_sign_on_def Let_def empty_signon_facts)
  have d: "returned (sp_sign_on empty_signon_env (load_config empty_signon_env) None
                       start_state) = Inl Uninitialised_read"
    by (simp add: sp_sign_on_def Let_def empty_signon_facts)
  from a b c d stop no_session_facts(3) empty_signon_facts(3,5) show ?thesis
    by (simp add: exit_status_def)
qed

lemma with_sign_off_simps [simp]:
  "load_config (with_sign_off b p E) = load_config E"
  "scan_directory (with_sign_off b p E) = scan_directory E"
  "file_line (with_sign_off b p E) = file_line E"
  "timestamp (with_sign_off b p E) = timestamp E"
  "sp_sign_on (with_sign_off b p E) = sp_sign_on E"
  "sp_start_backup (with_sign_off b p E) = sp_start_backup E"
  "sp_get_task_data (with_sign_off b p E) = sp_get_task_data E"
proof -
  show "load_config (with_sign_off b p E) = load_config E"
    by (simp add: load_config_def with_sign_off_def)
  show "scan_directory (with_sign_off b p E) = scan_directory E"
    by (intro ext) (simp add: scan_directory_def with_sign_off_def)
  show "file_line (with_sign_off b p E) = file_line E"
    by (intro ext) (simp add: file_line_def with_sign_off_def)
  show "timestamp (with_sign_off b p E) = timestamp E"
    by (simp add: with_sign_off_def)
  show "sp_sign_on (with_sign_off b p E) = sp_sign_on E"
    by (intro ext) (simp add: sp_sign_on_def with_sign_off_def Let_def)
  show "sp_start_backup (with_sign_off b p E) = sp_start_backup E"
    by (intro ext) (simp add: sp_start_backup_def with_sign_off_def Let_def split: sum.splits)
  show "sp_get_task_data (with_sign_off b p E) = sp_get_task_data E"
    by (intro ext) (simp add: sp_get_task_data_def with_sign_off_def Let_def)
qed

lemma with_sign_off_wait [simp]:
  "sp_wait_for_task (with_sign_off b p E) config sid tid max_minutes s
     = sp_wait_for_task E config sid tid max_minutes s"
  by (rule wait_for_task_cong) (simp_all add: with_sign_off_def)

lemma sign_off_does_not_decide:
  "exit_status (main (with_sign_off b p E) argv) = exit_status (main E argv)"
  by (simp add: main_def Let_def and_then_def exit_status_def
        split: sum.splits option.splits prod.splits)

text \<open>
  The value \<^verbatim>\<open>main\<close> returns after a sign-on that obtained a session id, from what the
  submission, the wait and the detail query return.
\<close>

lemma main_returned:
  assumes pw: "getenv E ''SP_PASSWORD'' \<noteq> None"
    and ff: "found_files E (download_directory argv) \<noteq> []"
    and sid: "signon_session E (load_config E) 0 = Inr (Some sid)"
  obtains sb where
    "\<exists>s4. inits s4 = 1
        \<and> sb = sp_start_backup E (load_config E) sid (download_directory argv)
                 (''ceph_downloads_'' @ timestamp E)
                 (Some (found_files E (download_directory argv))) s4"
    "returned (main E argv) =
       (case returned sb of
          Inl f \<Rightarrow> Inl f
        | Inr None \<Rightarrow> Inr 1
        | Inr (Some tid) \<Rightarrow>
            (case returned (sp_wait_for_task E (load_config E) sid tid 10 (world sb)) of
               Inl f \<Rightarrow> Inl f
             | Inr success \<Rightarrow>
                 if success \<noteq> 0
                 then (case returned
                              (sp_get_task_data E (load_config E) sid tid
                                 (world (sp_wait_for_task E (load_config E) sid tid 10
                                           (world sb)))) of
                         Inl f \<Rightarrow> Inl f
                       | Inr reported \<Rightarrow> Inr 0)
                 else Inr 1))"
proof -
  let ?cfg = "load_config E"
  from main_signed_on[OF pw ff sid] obtain s4 where
    s4: "inits s4 = 1"
    and m: "main E argv =
      and_then
        (sp_start_backup E ?cfg sid (download_directory argv)
           (''ceph_downloads_'' @ timestamp E)
           (Some (found_files E (download_directory argv))) s4)
        (finish_backup E ?cfg sid)"
    by blast
  define sb where "sb = sp_start_backup E ?cfg sid (download_directory argv)
           (''ceph_downloads_'' @ timestamp E)
           (Some (found_files E (download_directory argv))) s4"
  have m': "main E argv = and_then sb (finish_backup E ?cfg sid)"
    unfolding sb_def by (rule m)
  show ?thesis
  proof (rule that[of sb])
    show "\<exists>s4. inits s4 = 1
        \<and> sb = sp_start_backup E (load_config E) sid (download_directory argv)
                 (''ceph_downloads_'' @ timestamp E)
                 (Some (found_files E (download_directory argv))) s4"
      using s4 sb_def by blast
    show "returned (main E argv) =
       (case returned sb of
          Inl f \<Rightarrow> Inl f
        | Inr None \<Rightarrow> Inr 1
        | Inr (Some tid) \<Rightarrow>
            (case returned (sp_wait_for_task E (load_config E) sid tid 10 (world sb)) of
               Inl f \<Rightarrow> Inl f
             | Inr success \<Rightarrow>
                 if success \<noteq> 0
                 then (case returned
                              (sp_get_task_data E (load_config E) sid tid
                                 (world (sp_wait_for_task E (load_config E) sid tid 10
                                           (world sb)))) of
                         Inl f \<Rightarrow> Inl f
                       | Inr reported \<Rightarrow> Inr 0)
                 else Inr 1))"
    proof (cases rule: outcome_cases[of sb])
      case (stopped f s5)
      thus ?thesis unfolding m' by simp
    next
      case sb: (returns b s5)
      show ?thesis
      proof (cases b)
        case None
        with sb show ?thesis unfolding m' by simp
      next
        case (Some tid)
        define w where "w = sp_wait_for_task E ?cfg sid tid 10 s5"
        show ?thesis
        proof (cases rule: outcome_cases[of w])
          case (stopped f s6)
          with sb Some show ?thesis unfolding m' by (simp add: w_def[symmetric])
        next
          case w: (returns success s6)
          define d where "d = sp_get_task_data E ?cfg sid tid s6"
          show ?thesis
          proof (cases rule: outcome_cases[of d])
            case (stopped f s7)
            with sb Some w show ?thesis
              unfolding m' by (simp add: w_def[symmetric] d_def[symmetric])
          next
            case (returns u s7)
            with sb Some w show ?thesis
              unfolding m' by (simp add: w_def[symmetric] d_def[symmetric])
          qed
        qed
      qed
    qed
  qed
qed

lemma empty_submit_facts:
  "getenv empty_submit_env ''SP_PASSWORD'' \<noteq> None"
  "found_files empty_submit_env (download_directory [''sp_upload'']) \<noteq> []"
  "signon_session empty_submit_env (load_config empty_submit_env) 0 = Inr (Some ''S1'')"
  "curl_easy_init empty_submit_env n a"
  "curl_easy_perform empty_submit_env n Start_backup r = CURLE_OK 202 []"
  "found_files empty_submit_env ''downloads'' = [''downloads/report.txt'']"
  "timestamp empty_submit_env = ''20260101_120000''"
  by (simp_all add: empty_submit_env_def found_files_simps stalled_env_def scripted_env_def
        MAX_FILES_def MAX_PATH_LEN_def snprintf_def signon_session_eq decoder_defs)

lemma empty_submit_run:
  "returned (main empty_submit_env [''sp_upload'']) = Inl Uninitialised_read"
proof -
  from main_returned[OF empty_submit_facts(1,2,3)] obtain sb where
    sb: "\<exists>s4. inits s4 = 1
        \<and> sb = sp_start_backup empty_submit_env (load_config empty_submit_env) ''S1''
                 (download_directory [''sp_upload''])
                 (''ceph_downloads_'' @ timestamp empty_submit_env)
                 (Some (found_files empty_submit_env (download_directory [''sp_upload'']))) s4"
    and m: "returned (main empty_submit_env [''sp_upload'']) =
       (case returned sb of
          Inl f \<Rightarrow> Inl f
        | Inr None \<Rightarrow> Inr 1
        | Inr (Some tid) \<Rightarrow>
            (case returned (sp_wait_for_task empty_submit_env (load_config empty_submit_env)
                              ''S1'' tid 10 (world sb)) of
               Inl f \<Rightarrow> Inl f
             | Inr success \<Rightarrow>
                 if success \<noteq> 0
                 then (case returned
                              (sp_get_task_data empty_submit_env (load_config empty_submit_env)
                                 ''S1'' tid
                                 (world (sp_wait_for_task empty_submit_env
                                           (load_config empty_submit_env) ''S1'' tid 10
                                           (world sb)))) of
                         Inl f \<Rightarrow> Inl f
                       | Inr reported \<Rightarrow> Inr 0)
                 else Inr 1))"
    by blast
  from sb report_body_length have "returned sb = Inl Uninitialised_read"
    by (auto simp: start_backup_returned empty_submit_facts)
  thus ?thesis unfolding m by simp
qed

lemma failing_run:
  "returned (main failing_env [''sp_upload'']) = Inr 1"
proof -
  have pw: "getenv failing_env ''SP_PASSWORD'' \<noteq> None"
    and ff: "found_files failing_env (download_directory [''sp_upload'']) \<noteq> []"
    by simp_all
  let ?cfg = "load_config failing_env"
  from main_returned[OF pw ff failing_session] obtain sb where
    sb: "\<exists>s4. inits s4 = 1
        \<and> sb = sp_start_backup failing_env ?cfg ''S1''
                 (download_directory [''sp_upload''])
                 (''ceph_downloads_'' @ timestamp failing_env)
                 (Some (found_files failing_env (download_directory [''sp_upload'']))) s4"
    and m: "returned (main failing_env [''sp_upload'']) =
       (case returned sb of
          Inl f \<Rightarrow> Inl f
        | Inr None \<Rightarrow> Inr 1
        | Inr (Some tid) \<Rightarrow>
            (case returned (sp_wait_for_task failing_env ?cfg ''S1'' tid 10 (world sb)) of
               Inl f \<Rightarrow> Inl f
             | Inr success \<Rightarrow>
                 if success \<noteq> 0
                 then (case returned
                              (sp_get_task_data failing_env ?cfg ''S1'' tid
                                 (world (sp_wait_for_task failing_env ?cfg ''S1'' tid 10
                                           (world sb)))) of
                         Inl f \<Rightarrow> Inl f
                       | Inr reported \<Rightarrow> Inr 0)
                 else Inr 1))"
    by blast
  have submit: "curl_easy_perform failing_env n Start_backup r
                  = CURLE_OK 202 [''{\"taskId\":\"T1\"}'']" for n r
    by (simp add: failing_env_def scripted_env_def)
  from sb report_body_length have r: "returned sb = Inr (Some ''T1'')"
    by (auto simp: start_backup_returned submit decoder_defs)
  from sb have i: "inits (world sb) = 2" by auto
  have fits: "fits_int (10 * 12)" by (simp add: fits_int_def)
  have "first_terminal failing_env ?cfg ''S1'' ''T1'' (inits (world sb)) 0"
    by (simp add: first_terminal_def observed_scripted failing_env_def)
  moreover have "(0::nat) < nat (10 * 12)" by simp
  moreover have "observed failing_env ?cfg ''S1'' ''T1'' (inits (world sb) + 0)
                   = Inr (Some ''Failed'')"
    by (simp add: observed_scripted failing_env_def)
  ultimately have "returned (sp_wait_for_task failing_env ?cfg ''S1'' ''T1'' 10 (world sb))
                     = Inr 0"
    using wait_ends_failure[OF fits, of 0 failing_env ?cfg "''S1''" "''T1''" "world sb"
            "''Failed''"]
    by simp
  with r show ?thesis unfolding m by simp
qed

text \<open>
  C7. \<^verbatim>\<open>main\<close> calls \<^verbatim>\<open>sp_sign_off\<close> before each of its returns that follow a successful
  sign-on, and nothing the sign-off does can change the exit status: a world that
  differs only in what happens to the sign-off gives the same. A run that returns has
  therefore signed off exactly once, as the run against \<^term>\<open>failing_env\<close>, whose polling
  ends in failure. But not every run with a session reaches a return. The job submission
  for \<^term>\<open>big_manifest\<close> writes outside the request buffer, and a submission answered
  with an empty body reads the response buffer uninitialised: both runs stop inside
  \<^verbatim>\<open>sp_start_backup\<close>, after the sign-on has given the session \<open>S1\<close>, and the sign-off is
  never called.
\<close>

theorem stopped_run_never_signs_off:
  "signon_session failing_env (load_config failing_env) 0 = Inr (Some ''S1'')
   \<and> exit_status (main failing_env [''sp_upload'']) = Inr 1
   \<and> calls Sign_off (world (main failing_env [''sp_upload''])) = 1
   \<and> signon_session big_env (load_config big_env) 0 = Inr (Some ''S1'')
   \<and> exit_status (main big_env [''sp_upload'']) = Inl Write_out_of_bounds
   \<and> calls Sign_on (world (main big_env [''sp_upload''])) = 1
   \<and> calls Start_backup (world (main big_env [''sp_upload''])) = 1
   \<and> calls Sign_off (world (main big_env [''sp_upload''])) = 0
   \<and> signon_session empty_submit_env (load_config empty_submit_env) 0 = Inr (Some ''S1'')
   \<and> exit_status (main empty_submit_env [''sp_upload'']) = Inl Uninitialised_read
   \<and> calls Sign_on (world (main empty_submit_env [''sp_upload''])) = 1
   \<and> calls Start_backup (world (main empty_submit_env [''sp_upload''])) = 1
   \<and> calls Sign_off (world (main empty_submit_env [''sp_upload''])) = 0
   \<and> exit_status (main (with_sign_off init perform E) argv) = exit_status (main E argv)"
proof -
  have pw: "getenv failing_env ''SP_PASSWORD'' \<noteq> None"
    and ff: "found_files failing_env (download_directory [''sp_upload'']) \<noteq> []"
    by simp_all
  note failing = main_session_effect[OF pw ff failing_session]
  note big = main_session_effect[OF big_env_facts(1) big_env_run(1) big_env_facts(2)]
  note empty = main_session_effect[OF empty_submit_facts(1,2,3)]
  from main_overflow[OF big_env_facts(1) big_env_run(1) big_env_facts(2,4) big_env_run(2)]
  have big_run: "returned (main big_env [''sp_upload'']) = Inl Write_out_of_bounds" .
  have a: "exit_status (main failing_env [''sp_upload'']) = Inr 1
      \<and> calls Sign_off (world (main failing_env [''sp_upload''])) = 1"
    using failing(3) failing_run by (simp add: exit_status_def)
  have b: "exit_status (main big_env [''sp_upload'']) = Inl Write_out_of_bounds
      \<and> calls Sign_on (world (main big_env [''sp_upload''])) = 1
      \<and> calls Start_backup (world (main big_env [''sp_upload''])) = 1
      \<and> calls Sign_off (world (main big_env [''sp_upload''])) = 0"
    using big(1,2,3) big_run by (simp add: exit_status_def)
  have c: "exit_status (main empty_submit_env [''sp_upload'']) = Inl Uninitialised_read
      \<and> calls Sign_on (world (main empty_submit_env [''sp_upload''])) = 1
      \<and> calls Start_backup (world (main empty_submit_env [''sp_upload''])) = 1
      \<and> calls Sign_off (world (main empty_submit_env [''sp_upload''])) = 0"
    using empty(1,2,3) empty_submit_run by (simp add: exit_status_def)
  have d: "exit_status (main (with_sign_off init perform E) argv) = exit_status (main E argv)"
    by (rule sign_off_does_not_decide)
  from a b c d failing_session big_env_facts(2) empty_submit_facts(3) show ?thesis
    by blast
qed

section \<open>The backup path of the submitted job\<close>

lemma backup_directory_unused [simp]:
  "signon_request (config\<lparr>backup_directory := x\<rparr>) = signon_request config"
  "signoff_request (config\<lparr>backup_directory := x\<rparr>) = signoff_request config"
  "backup_request (config\<lparr>backup_directory := x\<rparr>) = backup_request config"
  "status_request (config\<lparr>backup_directory := x\<rparr>) = status_request config"
  "data_request (config\<lparr>backup_directory := x\<rparr>) = data_request config"
  by (simp_all add: fun_eq_iff signon_request_def signoff_request_def backup_request_def
        status_request_def data_request_def)

lemma getenv_update_simps [simp]:
  "scan_directory (E\<lparr>getenv := g\<rparr>) = scan_directory E"
  "file_line (E\<lparr>getenv := g\<rparr>) = file_line E"
  "sp_sign_on (E\<lparr>getenv := g\<rparr>) (config\<lparr>backup_directory := x\<rparr>) = sp_sign_on E config"
  "sp_sign_off (E\<lparr>getenv := g\<rparr>) (config\<lparr>backup_directory := x\<rparr>) = sp_sign_off E config"
  "sp_start_backup (E\<lparr>getenv := g\<rparr>) (config\<lparr>backup_directory := x\<rparr>)
     = sp_start_backup E config"
  "sp_get_task_data (E\<lparr>getenv := g\<rparr>) (config\<lparr>backup_directory := x\<rparr>)
     = sp_get_task_data E config"
proof -
  show "scan_directory (E\<lparr>getenv := g\<rparr>) = scan_directory E"
    by (intro ext) (simp add: scan_directory_def)
  show "file_line (E\<lparr>getenv := g\<rparr>) = file_line E"
    by (intro ext) (simp add: file_line_def)
  show "sp_sign_on (E\<lparr>getenv := g\<rparr>) (config\<lparr>backup_directory := x\<rparr>) = sp_sign_on E config"
    by (intro ext) (simp add: sp_sign_on_def Let_def)
  show "sp_sign_off (E\<lparr>getenv := g\<rparr>) (config\<lparr>backup_directory := x\<rparr>)
          = sp_sign_off E config"
    by (intro ext) (simp add: sp_sign_off_def Let_def)
  show "sp_start_backup (E\<lparr>getenv := g\<rparr>) (config\<lparr>backup_directory := x\<rparr>)
          = sp_start_backup E config"
    by (intro ext) (simp add: sp_start_backup_def Let_def split: sum.splits)
  show "sp_get_task_data (E\<lparr>getenv := g\<rparr>) (config\<lparr>backup_directory := x\<rparr>)
          = sp_get_task_data E config"
    by (intro ext) (simp add: sp_get_task_data_def Let_def)
qed

lemma getenv_update_wait [simp]:
  "sp_wait_for_task (E\<lparr>getenv := g\<rparr>) (config\<lparr>backup_directory := x\<rparr>) sid tid max_minutes s
     = sp_wait_for_task E config sid tid max_minutes s"
  by (rule wait_for_task_cong) simp_all

lemma load_config_backup_dir:
  "load_config (E\<lparr>getenv := (getenv E)(''SP_BACKUP_DIR'' := v)\<rparr>)
     = (load_config E)\<lparr>backup_directory :=
          (case v of Some d \<Rightarrow> d | None \<Rightarrow> ''/sp_backups/ceph_downloads'')\<rparr>"
  by (simp add: load_config_def)

lemma main_ignores_backup_dir:
  "main (E\<lparr>getenv := (getenv E)(''SP_BACKUP_DIR'' := v)\<rparr>) argv = main E argv"
  unfolding main_def load_config_backup_dir Let_def
  by (simp cong: option.case_cong if_cong)

lemma main_no_password:
  assumes "getenv E ''SP_PASSWORD'' = None"
  shows "main E argv = Inr (1, emit (usage argv) \<lparr>inits = 0, events = []\<rparr>)"
proof -
  have "password (load_config E) = None"
    using assms by (simp add: load_config_def)
  thus ?thesis
    unfolding main_def Let_def by (simp only: if_True simp_thms)
qed

lemma head_in_body:
  assumes "files \<noteq> []"
    and "length (full_body sid name path (Some files)) \<le> 8193"
  shows "prefix (payload_head sid name path) (take 8191 (full_body sid name path (Some files)))"
proof -
  obtain f fs where files: "files = f # fs" using assms(1) by (cases files) auto
  obtain tail where full: "full_body sid name path (Some files) = payload_head sid name path @ tail"
    and tail: "17 \<le> length tail"
    by (simp add: full_body_def files)
  from assms(2) tail have "length (payload_head sid name path) \<le> 8191"
    unfolding full by simp
  thus ?thesis unfolding full by (simp add: prefix_def)
qed

text \<open>
  The job submissions of a run, whatever its end: none, or the one request whose body
  \<^verbatim>\<open>sp_start_backup\<close> composed from the session id, the backup name, the scan directory
  and the files found there.
\<close>

lemma main_submissions:
  "submissions (world (main E argv)) = []
   \<or> (\<exists>sid. found_files E (download_directory argv) \<noteq> []
         \<and> length (full_body sid (''ceph_downloads_'' @ timestamp E) (download_directory argv)
                     (Some (found_files E (download_directory argv)))) \<le> 8193
         \<and> submissions (world (main E argv))
             = [backup_request (load_config E)
                  (take 8191
                     (full_body sid (''ceph_downloads_'' @ timestamp E)
                        (download_directory argv)
                        (Some (found_files E (download_directory argv)))))])"
proof (cases "getenv E ''SP_PASSWORD'' = None")
  case True
  from main_no_password[OF this, of argv] show ?thesis
    by (simp add: usage_def)
next
  case pw: False
  show ?thesis
  proof (cases "found_files E (download_directory argv) = []")
    case True
    from main_nothing_found[OF pw this] show ?thesis by simp
  next
    case ff: False
    show ?thesis
    proof (cases "signon_session E (load_config E) 0")
      case (Inl f)
      from main_stopped_at_sign_on[OF pw ff this] show ?thesis by simp
    next
      case (Inr session_id)
      show ?thesis
      proof (cases session_id)
        case None
        with Inr main_no_session[OF pw ff] show ?thesis by auto
      next
        case (Some sid)
        with Inr have "signon_session E (load_config E) 0 = Inr (Some sid)" by simp
        from main_session_effect(4)[OF pw ff this] ff show ?thesis
          by (auto split: if_splits)
      qed
    qed
  qed
qed

text \<open>
  C10. The backup directory of the configuration (\<^verbatim>\<open>SP_BACKUP_DIR\<close>) is read into the
  configuration and never used: a run in a world that differs only in that variable
  is the same run, event for event and with the same end. With \<open>dir\<close> the scan directory,
  which is \<^verbatim>\<open>argv[1]\<close> when there is one and \<^verbatim>\<open>downloads\<close> otherwise, the body of every
  job submission put on the wire is what \<^verbatim>\<open>sp_start_backup\<close> composes for \<open>dir\<close> and the
  files the scan of \<open>dir\<close> found, and it starts with the text that ends in
  \<^verbatim>\<open>"backupPath":"dir"\<close>. This holds of every run, whether it returns or is stopped.
\<close>

theorem backup_path_is_scan_directory:
  \<open>dir = (if 1 < length argv then argv ! 1 else ''downloads'') \<Longrightarrow>
     main (E\<lparr>getenv := (getenv E)(''SP_BACKUP_DIR'' := v)\<rparr>) argv = main E argv
   \<and> (\<forall>r \<in> set (submissions (world (main E argv))).
         \<exists>sid body.
            postfields r = Some body
            \<and> body = take 8191 (full_body sid (''ceph_downloads_'' @ timestamp E) dir
                                   (Some (found_files E dir)))
            \<and> prefix (payload_head sid (''ceph_downloads_'' @ timestamp E) dir) body
            \<and> suffix (''"backupPath":"'' @ dir @ ''"'')
                (payload_head sid (''ceph_downloads_'' @ timestamp E) dir))\<close>
proof (intro conjI ballI)
  show "main (E\<lparr>getenv := (getenv E)(''SP_BACKUP_DIR'' := v)\<rparr>) argv = main E argv"
    by (rule main_ignores_backup_dir)
next
  fix r
  assume "dir = (if 1 < length argv then argv ! 1 else ''downloads'')"
  hence dir: "download_directory argv = dir" by (simp add: download_directory_def)
  let ?name = "''ceph_downloads_'' @ timestamp E"
  assume "r \<in> set (submissions (world (main E argv)))"
  with main_submissions[of E argv] obtain sid where
    ff: "found_files E dir \<noteq> []"
    and len: "length (full_body sid ?name dir (Some (found_files E dir))) \<le> 8193"
    and r: "r = backup_request (load_config E)
                  (take 8191 (full_body sid ?name dir (Some (found_files E dir))))"
    unfolding dir by auto
  let ?body = "take 8191 (full_body sid ?name dir (Some (found_files E dir)))"
  have "postfields r = Some ?body" by (simp add: r backup_request_def)
  moreover from head_in_body[OF ff len]
  have "prefix (payload_head sid ?name dir) ?body" .
  moreover have \<open>suffix (''"backupPath":"'' @ dir @ ''"'') (payload_head sid ?name dir)\<close>
    by (simp add: payload_head_def suffix_def)
  ultimately show \<open>\<exists>sid body.
            postfields r = Some body
            \<and> body = take 8191 (full_body sid ?name dir (Some (found_files E dir)))
            \<and> prefix (payload_head sid ?name dir) body
            \<and> suffix (''"backupPath":"'' @ dir @ ''"'') (payload_head sid ?name dir)\<close>
    by blast
qed

lemma archive_facts:
  "getenv archive_env ''SP_PASSWORD'' \<noteq> None"
  "found_files archive_env (download_directory [''sp_upload'', ''/var/archive'']) \<noteq> []"
  "signon_session archive_env (load_config archive_env) 0 = Inr (Some ''S1'')"
  "curl_easy_init archive_env n a"
  "found_files archive_env ''/var/archive'' = [''/var/archive/report.txt'']"
  "found_files archive_env ''downloads'' = []"
  "timestamp archive_env = ''20260101_120000''"
  "download_directory [''sp_upload'', ''/var/archive''] = ''/var/archive''"
  by (simp_all add: archive_env_def failing_env_def found_files_simps scripted_env_def
        MAX_FILES_def MAX_PATH_LEN_def snprintf_def signon_session_eq decoder_defs
        download_directory_def)

theorem backup_path_is_scan_directory_witness:
  \<open>main (archive_env\<lparr>getenv := (getenv archive_env)(''SP_BACKUP_DIR'' := Some ''/elsewhere'')\<rparr>)
      [''sp_upload'', ''/var/archive'']
     = main archive_env [''sp_upload'', ''/var/archive'']
   \<and> (\<exists>r body.
         submissions (world (main archive_env [''sp_upload'', ''/var/archive''])) = [r]
         \<and> postfields r = Some body
         \<and> prefix (''{"sessionId":"S1","backupName":"ceph_downloads_20260101_120000",''
                    @ ''"backupType":"ceph_downloads","backupPath":"/var/archive"'') body
         \<and> sublist ''"/var/archive/report.txt"'' body)\<close>
proof -
  let ?argv = "[''sp_upload'', ''/var/archive'']"
  let ?full = "full_body ''S1'' (''ceph_downloads_'' @ ''20260101_120000'') ''/var/archive''
                 (Some [''/var/archive/report.txt''])"
  have dir: "''/var/archive'' = (if 1 < length ?argv then ?argv ! 1 else ''downloads'')"
    by simp
  have len: "length ?full = 161"
    by (simp add: full_body_def payload_head_def dquote_def)
  from main_session_effect(4)[OF archive_facts(1,2,3)] len
  have sub: "submissions (world (main archive_env ?argv))
               = [backup_request (load_config archive_env) (take 8191 ?full)]"
    by (simp add: archive_facts)
  let ?r = "backup_request (load_config archive_env) (take 8191 ?full)"
  note inst = backup_path_is_scan_directory[OF dir, of archive_env "Some ''/elsewhere''"]
  from inst sub obtain sid body where body: "postfields ?r = Some body"
    by auto
  hence b: "body = take 8191 ?full" by (simp add: backup_request_def)
  have \<open>prefix (''{"sessionId":"S1","backupName":"ceph_downloads_20260101_120000",''
                    @ ''"backupType":"ceph_downloads","backupPath":"/var/archive"'') body\<close>
    unfolding b by (simp add: full_body_def payload_head_def)
  moreover have \<open>sublist ''"/var/archive/report.txt"'' body\<close>
    unfolding b using len by (simp add: full_body_def payload_head_def dquote_def) code_simp
  ultimately show ?thesis using inst sub body by blast
qed

section \<open>A manifest larger than the request buffer\<close>

text \<open>
  C3. The claim asks for the whole body for a manifest of any size. The code composes
  the body in 8192 bytes and adds up what \<^verbatim>\<open>snprintf\<close> would have written: for the
  thirty-six paths of \<^term>\<open>big_manifest\<close> (a body of 9600 characters) the offset passes
  the end of the block while the file list is being written, and the next \<^verbatim>\<open>snprintf\<close>
  writes outside the block. The input is within reach of the program: it is what the scan
  of such a directory hands to \<^verbatim>\<open>sp_start_backup\<close>, and the run stops there.
\<close>

theorem big_manifest_overflows_request_buffer:
  "length (full_body ''S1'' ''ceph_downloads_20260101_120000'' ''downloads'' (Some big_manifest))
     = 9600
   \<and> build_payload ''S1'' ''ceph_downloads_20260101_120000'' ''downloads'' (Some big_manifest)
     = Inl Write_out_of_bounds
   \<and> found_files big_env ''downloads'' = big_manifest
   \<and> exit_status (main big_env [''sp_upload'']) = Inl Write_out_of_bounds
   \<and> submissions (world (main big_env [''sp_upload''])) = []"
proof -
  have bp: "build_payload ''S1'' ''ceph_downloads_20260101_120000'' ''downloads''
               (Some big_manifest) = Inl Write_out_of_bounds"
    using big_body_length by (simp add: build_payload_cases)
  from main_overflow[OF big_env_facts(1) big_env_run(1) big_env_facts(2,4) big_env_run(2)]
  have stop: "exit_status (main big_env [''sp_upload'']) = Inl Write_out_of_bounds"
    by (simp add: exit_status_def)
  from main_session_effect(4)[OF big_env_facts(1) big_env_run(1) big_env_facts(2)]
    big_env_run(2)
  have "submissions (world (main big_env [''sp_upload''])) = []"
    by simp
  with big_body_length bp big_env_files stop show ?thesis by blast
qed

end
